theory Spec2Isabelle
  imports Complex_Main
begin

section \<open>Data model\<close>

text \<open>
  A cell of a pandas data frame as the pipeline sees it: a number, a text, or a missing
  value. \<open>NA\<close> stands for both NaN and Python's \<open>None\<close>.
\<close>

datatype cell = Num rat | Str string | NA

text \<open>
  A data frame is its ordered column index and its rows; a row gives the cell under each
  column name. Only the cells under the listed columns belong to the frame.
\<close>

record frame =
  columns :: "string list"
  records :: "(string \<Rightarrow> cell) list"

type_synonym db_row = "(string \<times> cell) list"

datatype error = ValueError | KeyError string | TypeError | FileNotFoundError | RemoteError

datatype csv_file = Raw | Staged

text \<open>What the scripts print, one constructor per message of the source.\<close>

datatype message =
    Looking_for_data_file
  | File_not_found
  | Run_transform_first
  | Missing_required_columns "string list"
  | Loading_rows nat
  | Batch_inserted nat nat nat nat
  | Error_in_batch nat nat
  | Max_retries_reached nat
  | Retrying_batch nat nat
  | Finished_loading
  | Error_loading_data error
  | Table_created
  | Note_while_creating_table
  | Create_table_manually
  | Error_creating_table error
  | Trying_to_continue
  | Data_transformed
  | Raw_file_not_found
  | Transformed_file_not_found
  | Starting_validation
  | Check_line nat bool
  | Could_not_get_row_count
  | Row_count_mismatch nat nat
  | Row_count_not_validated
  | Summary_header
  | Summary_line string bool
  | All_checks_passed
  | Some_checks_failed

text \<open>Everything a run does to the outside, in the order it happens.\<close>

datatype io =
    Print message
  | Sleep nat
  | Read_csv csv_file
  | Write_csv csv_file
  | Insert_call "db_row list"
  | Select_count_call
  | Rpc_call

section \<open>The remote store\<close>

text \<open>
  The hosted table is an external collaborator. Its state type \<open>'s\<close> and its answers
  are left open: a request maps the store's state to a reply and a new state.
  An insert either raises or returns a response, whose \<open>error\<close> attribute may be set;
  a count query either raises or returns a response with its \<open>count\<close> attribute and
  the number of rows in its \<open>data\<close>.
\<close>

datatype insert_reply = Insert_raised | Insert_response "string option"

datatype count_reply = Count_raised | Count_response "nat option" nat

datatype rpc_reply = Rpc_raised | Rpc_done

record 's supabase =
  api_insert :: "db_row list \<Rightarrow> 's \<Rightarrow> insert_reply \<times> 's"
  api_select_count :: "'s \<Rightarrow> count_reply \<times> 's"
  api_rpc :: "'s \<Rightarrow> rpc_reply \<times> 's"

record 's world =
  SUPABASE_URL :: "string option"
  SUPABASE_KEY :: "string option"
  raw_csv :: "frame option"
  staged_csv :: "frame option"
  remote :: 's
  trace :: "io list"

definition emit :: "io \<Rightarrow> 's world \<Rightarrow> 's world" where
  "emit e w = w\<lparr>trace := trace w @ [e]\<rparr>"

definition say :: "message \<Rightarrow> 's world \<Rightarrow> 's world" where
  "say m w = emit (Print m) w"

section \<open>load.py\<close>

definition BATCH_SIZE :: nat where
  "BATCH_SIZE = 200"

definition MAX_RETRIES :: nat where
  "MAX_RETRIES = 3"

datatype client = Client string string

text \<open>
  Python's \<open>not s\<close> for a setting read with \<open>os.getenv\<close>: unset or empty.
  \<open>create_client\<close> is taken to return a client for any two settings that are there.
\<close>

definition falsy :: "string option \<Rightarrow> bool" where
  "falsy s = (case s of None \<Rightarrow> True | Some v \<Rightarrow> v = [])"

definition get_supabase_client :: "'s world \<Rightarrow> error + client" where
  "get_supabase_client w =
     (if falsy (SUPABASE_URL w) \<or> falsy (SUPABASE_KEY w) then Inl ValueError
      else Inr (Client (the (SUPABASE_URL w)) (the (SUPABASE_KEY w))))"

definition create_table_if_not_exists :: "'s supabase \<Rightarrow> 's world \<Rightarrow> 's world" where
  "create_table_if_not_exists api w =
     (case get_supabase_client w of
        Inl e \<Rightarrow> say Trying_to_continue (say (Error_creating_table e) w)
      | Inr c \<Rightarrow>
          (case api_rpc api (remote w) of (reply, s) \<Rightarrow>
             (let w1 = (emit Rpc_call w)\<lparr>remote := s\<rparr> in
              case reply of
                Rpc_done \<Rightarrow> say Table_created w1
              | Rpc_raised \<Rightarrow> say Create_table_manually (say Note_while_creating_table w1))))"

definition required_cols :: "string list" where
  "required_cols =
     [''tenure'', ''MonthlyCharges'', ''TotalCharges'', ''Churn'', ''InternetService'',
      ''Contract'', ''PaymentMethod'', ''tenure_group'', ''monthly_charge_segment'',
      ''has_internet_service'', ''is_multi_line_user'', ''contract_type_code'']"

text \<open>\<open>df[cols]\<close>, for columns known to be present.\<close>

definition select_columns :: "string list \<Rightarrow> frame \<Rightarrow> frame" where
  "select_columns cs df = df\<lparr>columns := cs\<rparr>"

text \<open>\<open>df.iloc[a:b]\<close>: a slice of the rows; Python clamps the bounds.\<close>

definition iloc :: "frame \<Rightarrow> nat \<Rightarrow> nat \<Rightarrow> frame" where
  "iloc df a b = df\<lparr>records := take (b - a) (drop a (records df))\<rparr>"

text \<open>
  \<open>batch.where(pd.notnull(batch), None)\<close>: a missing cell becomes \<open>None\<close>, which is
  \<open>NA\<close> here as well.
\<close>

definition where_notnull :: "frame \<Rightarrow> frame" where
  "where_notnull df =
     df\<lparr>records := map (\<lambda>r c. if r c \<noteq> NA then r c else NA) (records df)\<rparr>"

definition to_dict_records :: "frame \<Rightarrow> db_row list" where
  "to_dict_records df = map (\<lambda>r. map (\<lambda>c. (c, r c)) (columns df)) (records df)"

text \<open>\<open>range(0, total_rows, BATCH_SIZE)\<close>, from \<open>i\<close> on.\<close>

function batch_offsets :: "nat \<Rightarrow> nat \<Rightarrow> nat list" where
  "batch_offsets i total_rows =
     (if i < total_rows then i # batch_offsets (i + BATCH_SIZE) total_rows else [])"
  by pat_completeness auto
termination
  by (relation "measure (\<lambda>(i, total_rows). total_rows - i)") (auto simp: BATCH_SIZE_def)

declare batch_offsets.simps [simp del]

text \<open>The slices the loop takes, one per offset, in the order it takes them.\<close>

definition batches :: "frame \<Rightarrow> frame list" where
  "batches df =
     map (\<lambda>i. iloc df i (i + BATCH_SIZE)) (batch_offsets 0 (length (records df)))"

text \<open>
  The insert failed when the call raised, or when the response carries a truthy
  \<open>error\<close> attribute.
\<close>

definition insert_failed :: "insert_reply \<Rightarrow> bool" where
  "insert_failed reply =
     (case reply of Insert_raised \<Rightarrow> True | Insert_response e \<Rightarrow> \<not> falsy e)"

text \<open>The \<open>while attempt <= MAX_RETRIES\<close> loop of one batch.\<close>

function retry_loop ::
  "'s supabase \<Rightarrow> db_row list \<Rightarrow> nat \<Rightarrow> nat \<Rightarrow> nat \<Rightarrow> nat \<Rightarrow> 's world \<Rightarrow> 's world" where
  "retry_loop api recs i total_rows batch_number attempt w =
     (if attempt \<le> MAX_RETRIES then
        (case api_insert api recs (remote w) of (reply, s) \<Rightarrow>
           (let w1 = (emit (Insert_call recs) w)\<lparr>remote := s\<rparr> in
            if \<not> insert_failed reply then
              say (Batch_inserted batch_number (i + 1) (min (i + BATCH_SIZE) total_rows) total_rows) w1
            else
              (let w2 = say (Error_in_batch batch_number attempt) w1 in
               if attempt = MAX_RETRIES then say (Max_retries_reached batch_number) w2
               else
                 retry_loop api recs i total_rows batch_number (attempt + 1)
                   (emit (Sleep (2 * attempt)) (say (Retrying_batch batch_number (2 * attempt)) w2)))))
      else w)"
  by pat_completeness auto
termination
  by (relation "measure (\<lambda>(api, recs, i, total_rows, batch_number, attempt, w). MAX_RETRIES - attempt)")
     auto

declare retry_loop.simps [simp del]

text \<open>The \<open>for i in range(0, total_rows, BATCH_SIZE)\<close> loop, over the offsets left.\<close>

fun load_batches :: "'s supabase \<Rightarrow> frame \<Rightarrow> nat \<Rightarrow> nat list \<Rightarrow> 's world \<Rightarrow> 's world" where
  "load_batches api df total_rows [] w = w"
| "load_batches api df total_rows (i # offsets) w =
     (let batch = where_notnull (iloc df i (i + BATCH_SIZE));
          recs = to_dict_records batch;
          batch_number = i div BATCH_SIZE + 1
      in load_batches api df total_rows offsets
           (retry_loop api recs i total_rows batch_number 1 w))"

definition load_to_supabase :: "'s supabase \<Rightarrow> 's world \<Rightarrow> 's world" where
  "load_to_supabase api w0 =
     (let w = say Looking_for_data_file w0 in
      case staged_csv w of
        None \<Rightarrow> say Run_transform_first (say File_not_found w)
      | Some staged \<Rightarrow>
          (case get_supabase_client w of
             Inl e \<Rightarrow> say (Error_loading_data e) w
           | Inr c \<Rightarrow>
               (let w1 = emit (Read_csv Staged) w;
                    missing = filter (\<lambda>c. c \<notin> set (columns staged)) required_cols
                in if missing \<noteq> [] then say (Missing_required_columns missing) w1
                   else
                     (let df = select_columns required_cols staged;
                          total_rows = length (records df);
                          w2 = say (Loading_rows total_rows) w1;
                          w3 = load_batches api df total_rows (batch_offsets 0 total_rows) w2
                      in say Finished_loading w3))))"

text \<open>The script's entry point: the table first, then the load.\<close>

definition load_main :: "'s supabase \<Rightarrow> 's world \<Rightarrow> 's world" where
  "load_main api w = load_to_supabase api (create_table_if_not_exists api w)"

subsection \<open>The retry policy in the words of the specification\<close>

text \<open>
  Written from the specification, for comparison with the loops above. A batch is
  attempted up to three times. After a failed first attempt the loader waits 2, after a
  failed second attempt 4; after a failed third attempt the batch is skipped. Batch
  \<open>k\<close> reports the rows \<open>(k - 1) * 200 + 1\<close> to \<open>min (k * 200) n\<close>. \<open>policy_batch\<close>
  gives what one batch does to the outside and the store's state after it;
  \<open>policy_run\<close> goes through the batches in order, whatever way the earlier ones
  ended.
\<close>

definition policy_batch ::
  "'s supabase \<Rightarrow> db_row list \<Rightarrow> nat \<Rightarrow> nat \<Rightarrow> 's \<Rightarrow> io list \<times> 's" where
  "policy_batch api recs k n s =
     (let call = Insert_call recs;
          err = (\<lambda>a. Print (Error_in_batch k a));
          wait = (\<lambda>a. [Print (Retrying_batch k (2 * a)), Sleep (2 * a)]);
          ok = Print (Batch_inserted k ((k - 1) * BATCH_SIZE + 1) (min (k * BATCH_SIZE) n) n);
          skip = Print (Max_retries_reached k);
          (r1, s1) = api_insert api recs s;
          (r2, s2) = api_insert api recs s1;
          (r3, s3) = api_insert api recs s2
      in if \<not> insert_failed r1 then ([call, ok], s1)
         else if \<not> insert_failed r2 then ([call, err 1] @ wait 1 @ [call, ok], s2)
         else if \<not> insert_failed r3 then
           ([call, err 1] @ wait 1 @ [call, err 2] @ wait 2 @ [call, ok], s3)
         else ([call, err 1] @ wait 1 @ [call, err 2] @ wait 2 @ [call, err 3, skip], s3))"

fun policy_run :: "'s supabase \<Rightarrow> nat \<Rightarrow> nat \<Rightarrow> frame list \<Rightarrow> 's \<Rightarrow> io list \<times> 's" where
  "policy_run api n k [] s = ([], s)"
| "policy_run api n k (b # bs) s =
     (case policy_batch api (to_dict_records (where_notnull b)) k n s of (t, s1) \<Rightarrow>
        (case policy_run api n (k + 1) bs s1 of (u, s2) \<Rightarrow> (t @ u, s2)))"

section \<open>transform.py\<close>

text \<open>
  The pandas operations the transformer calls, on a column (a list of cells). Numbers
  are the finite floats, as rationals; the bin edge \<open>-0.1\<close> is \<open>-1/10\<close>. Comparisons
  of floats are exact, so they are comparisons of rationals; the one arithmetic step of
  the transformer, the mean inside the median, is rounded and is a parameter.
\<close>

definition and_then :: "error + 'a \<Rightarrow> ('a \<Rightarrow> error + 'b) \<Rightarrow> error + 'b" where
  "and_then m f = (case m of Inl e \<Rightarrow> Inl e | Inr x \<Rightarrow> f x)"

text \<open>The cells of a column that the frame has.\<close>

definition series :: "string \<Rightarrow> frame \<Rightarrow> cell list" where
  "series name df = map (\<lambda>r. r name) (records df)"

text \<open>\<open>df[name]\<close>: a \<open>KeyError\<close> when the frame has no such column.\<close>

definition getitem :: "string \<Rightarrow> frame \<Rightarrow> error + cell list" where
  "getitem name df =
     (if name \<in> set (columns df) then Inr (series name df) else Inl (KeyError name))"

text \<open>
  \<open>df[name] = values\<close>: the column is replaced where it stands, or added as the last
  column.
\<close>

definition setitem :: "string \<Rightarrow> cell list \<Rightarrow> frame \<Rightarrow> frame" where
  "setitem name vals df =
     df\<lparr>columns := (if name \<in> set (columns df) then columns df else columns df @ [name]),
        records := map (\<lambda>(r, v). r(name := v)) (zip (records df) vals)\<rparr>"

text \<open>
  A column has dtype \<open>object\<close> when it holds text. \<open>parse\<close> is pandas' reading of a
  text as a number, \<open>None\<close> where the text is not a number (blank, for one).
\<close>

fun is_text :: "cell \<Rightarrow> bool" where
  "is_text (Str t) = True"
| "is_text c = False"

definition is_object :: "cell list \<Rightarrow> bool" where
  "is_object s = list_ex is_text s"

text \<open>\<open>pd.to_numeric(s, errors="coerce")\<close>.\<close>

definition to_numeric :: "(string \<Rightarrow> rat option) \<Rightarrow> cell list \<Rightarrow> cell list" where
  "to_numeric parse s =
     map (\<lambda>c. case c of
            Str t \<Rightarrow> (case parse t of Some x \<Rightarrow> Num x | None \<Rightarrow> NA)
          | Num x \<Rightarrow> Num x
          | NA \<Rightarrow> NA) s"

fun number_of :: "cell \<Rightarrow> rat list" where
  "number_of (Num x) = [x]"
| "number_of c = []"

definition numbers :: "cell list \<Rightarrow> rat list" where
  "numbers s = concat (map number_of s)"

text \<open>
  \<open>s.median()\<close>: the middle of the sorted values that are there, or the mean of the
  two middle ones when their number is even; NaN when there is none; a \<open>TypeError\<close>
  on a column of text. The mean is computed in float64, so it is rounded: \<open>fmean a b\<close>
  stands for float64's \<open>(a + b) / 2\<close> and is left open. Numbers are the finite
  floats; a mean that overflows to infinity is outside the cells of this model.
\<close>

definition median :: "(rat \<Rightarrow> rat \<Rightarrow> rat) \<Rightarrow> cell list \<Rightarrow> error + cell" where
  "median fmean s =
     (if is_object s then Inl TypeError
      else
        (let xs = sort (numbers s); n = length xs
         in Inr (if n = 0 then NA
                 else if odd n then Num (xs ! (n div 2))
                 else Num (fmean (xs ! (n div 2 - 1)) (xs ! (n div 2))))))"

text \<open>\<open>s.fillna(v)\<close>; filling with NaN changes nothing.\<close>

definition fillna :: "cell \<Rightarrow> cell list \<Rightarrow> cell list" where
  "fillna v s = map (\<lambda>c. if c = NA then v else c) s"

text \<open>\<open>s.map(d)\<close> for a dict \<open>d\<close>: a value that is not a key becomes NaN.\<close>

definition map_dict :: "(string \<times> cell) list \<Rightarrow> cell list \<Rightarrow> cell list" where
  "map_dict d s =
     map (\<lambda>c. case c of
            Str k \<Rightarrow> (case map_of d k of Some v \<Rightarrow> v | None \<Rightarrow> NA)
          | Num x \<Rightarrow> NA
          | NA \<Rightarrow> NA) s"

text \<open>
  \<open>pd.cut(s, bins, labels, include_lowest=True, right=True)\<close>. A value's bin is the
  number of edges below it (\<open>searchsorted\<close> from the left), the first bin when the value
  is the lowest edge; no bin (NaN) when the value is below the lowest edge, above the
  highest one, or missing.
\<close>

datatype edge = Finite rat | Infinity

fun edge_below :: "rat \<Rightarrow> edge \<Rightarrow> bool" where
  "edge_below x (Finite b) = (b < x)"
| "edge_below x Infinity = False"

definition searchsorted_left :: "edge list \<Rightarrow> rat \<Rightarrow> nat" where
  "searchsorted_left bins x = length (filter (edge_below x) bins)"

definition cut_cell :: "edge list \<Rightarrow> string list \<Rightarrow> cell \<Rightarrow> cell" where
  "cut_cell bins labels c =
     (case c of
        Num x \<Rightarrow>
          (let ids = (if Finite x = hd bins then 1 else searchsorted_left bins x)
           in if ids = 0 \<or> ids = length bins then NA else Str (labels ! (ids - 1)))
      | Str t \<Rightarrow> NA
      | NA \<Rightarrow> NA)"

definition cut :: "edge list \<Rightarrow> string list \<Rightarrow> cell list \<Rightarrow> error + cell list" where
  "cut bins labels s =
     (if is_object s then Inl TypeError else Inr (map (cut_cell bins labels) s))"

definition tenure_bins :: "edge list" where
  "tenure_bins = [Finite (- 1 / 10), Finite 12, Finite 36, Finite 60, Infinity]"

definition tenure_labels :: "string list" where
  "tenure_labels = [''New'', ''Regular'', ''Loyal'', ''Champion'']"

text \<open>
  \<open>np.select(conditions, choices, default="Unknown")\<close> on the monthly charge: the first
  condition that holds decides; every comparison with NaN is false.
\<close>

definition charge_segment :: "cell \<Rightarrow> cell" where
  "charge_segment c =
     (case c of
        Num mc \<Rightarrow>
          (if mc < 30 then Str ''Low''
           else if mc \<ge> 30 \<and> mc \<le> 70 then Str ''Medium''
           else if mc > 70 then Str ''High''
           else Str ''Unknown'')
      | Str t \<Rightarrow> Str ''Unknown''
      | NA \<Rightarrow> Str ''Unknown'')"

definition charge_segments :: "cell list \<Rightarrow> error + cell list" where
  "charge_segments s = (if is_object s then Inl TypeError else Inr (map charge_segment s))"

definition numeric_cols :: "string list" where
  "numeric_cols = [''tenure'', ''MonthlyCharges'', ''TotalCharges'']"

text \<open>One round of the loop over \<open>numeric_cols\<close>, and the loop.\<close>

definition fill_median ::
  "(rat \<Rightarrow> rat \<Rightarrow> rat) \<Rightarrow> string \<Rightarrow> frame \<Rightarrow> error + frame" where
  "fill_median fmean col df =
     (if col \<in> set (columns df) then
        and_then (median fmean (series col df))
          (\<lambda>m. Inr (setitem col (fillna m (series col df)) df))
      else Inr df)"

fun fill_medians ::
  "(rat \<Rightarrow> rat \<Rightarrow> rat) \<Rightarrow> string list \<Rightarrow> frame \<Rightarrow> error + frame" where
  "fill_medians fmean [] df = Inr df"
| "fill_medians fmean (col # cols) df =
     and_then (fill_median fmean col df) (fill_medians fmean cols)"

text \<open>Cleaning steps 1 and 2: the coercion of \<open>TotalCharges\<close>, then the medians.\<close>

definition clean_numeric ::
  "(rat \<Rightarrow> rat \<Rightarrow> rat) \<Rightarrow> (string \<Rightarrow> rat option) \<Rightarrow> frame \<Rightarrow> error + frame" where
  "clean_numeric fmean parse df =
     and_then (getitem ''TotalCharges'' df)
       (\<lambda>tc. fill_medians fmean numeric_cols
              (setitem ''TotalCharges'' (to_numeric parse tc) df))"

text \<open>Cleaning step 3: \<open>"Unknown"\<close> for the missing cells of the columns of text.\<close>

definition fill_unknown :: "frame \<Rightarrow> frame" where
  "fill_unknown df =
     (let cat_cols = filter (\<lambda>c. is_object (series c df)) (columns df)
      in df\<lparr>records :=
           map (\<lambda>r c. if c \<in> set cat_cols \<and> r c = NA then Str ''Unknown'' else r c)
             (records df)\<rparr>)"

text \<open>\<open>df.drop(names, axis=1, errors="ignore")\<close>.\<close>

definition drop_columns :: "string list \<Rightarrow> frame \<Rightarrow> frame" where
  "drop_columns names df = df\<lparr>columns := filter (\<lambda>c. c \<notin> set names) (columns df)\<rparr>"

definition internet_codes :: "(string \<times> cell) list" where
  "internet_codes = [(''DSL'', Num 1), (''Fiber optic'', Num 1), (''No'', Num 0)]"

definition contract_codes :: "(string \<times> cell) list" where
  "contract_codes = [(''Month-to-month'', Num 0), (''One year'', Num 1), (''Two year'', Num 2)]"

text \<open>
  What the two dict lookups amount to on a cell (shown equal to \<open>map_dict\<close> below):
  the internet flag after \<open>fillna(0)\<close>, and the contract code.
\<close>

definition internet_flag :: "cell \<Rightarrow> cell" where
  "internet_flag c = (if c = Str ''DSL'' \<or> c = Str ''Fiber optic'' then Num 1 else Num 0)"

definition contract_code :: "cell \<Rightarrow> cell" where
  "contract_code c =
     (if c = Str ''Month-to-month'' then Num 0 else if c = Str ''One year'' then Num 1
      else if c = Str ''Two year'' then Num 2 else NA)"

text \<open>The five features, in the order of the source, and the drop.\<close>

definition add_tenure_group :: "frame \<Rightarrow> error + frame" where
  "add_tenure_group df =
     and_then (getitem ''tenure'' df) (\<lambda>tenure.
     and_then (cut tenure_bins tenure_labels tenure) (\<lambda>groups.
     Inr (setitem ''tenure_group'' groups df)))"

definition add_monthly_charge_segment :: "frame \<Rightarrow> error + frame" where
  "add_monthly_charge_segment df =
     and_then (getitem ''MonthlyCharges'' df) (\<lambda>mc.
     and_then (charge_segments mc) (\<lambda>segments.
     Inr (setitem ''monthly_charge_segment'' segments df)))"

definition add_has_internet_service :: "frame \<Rightarrow> error + frame" where
  "add_has_internet_service df =
     and_then (getitem ''InternetService'' df) (\<lambda>internet.
     Inr (setitem ''has_internet_service''
            (fillna (Num 0) (map_dict internet_codes internet)) df))"

definition add_is_multi_line_user :: "frame \<Rightarrow> error + frame" where
  "add_is_multi_line_user df =
     and_then (getitem ''MultipleLines'' df) (\<lambda>lines.
     Inr (setitem ''is_multi_line_user''
            (map (\<lambda>c. if c = Str ''Yes'' then Num 1 else Num 0) lines) df))"

definition add_contract_type_code :: "frame \<Rightarrow> error + frame" where
  "add_contract_type_code df =
     and_then (getitem ''Contract'' df) (\<lambda>contract.
     Inr (setitem ''contract_type_code'' (map_dict contract_codes contract) df))"

definition add_features :: "frame \<Rightarrow> error + frame" where
  "add_features df =
     and_then (add_tenure_group df) (\<lambda>df1.
     and_then (add_monthly_charge_segment df1) (\<lambda>df2.
     and_then (add_has_internet_service df2) (\<lambda>df3.
     and_then (add_is_multi_line_user df3) (\<lambda>df4.
     and_then (add_contract_type_code df4) (\<lambda>df5.
     Inr (drop_columns [''customerID'', ''gender''] df5))))))"

definition transform_frame ::
  "(rat \<Rightarrow> rat \<Rightarrow> rat) \<Rightarrow> (string \<Rightarrow> rat option) \<Rightarrow> frame \<Rightarrow> error + frame" where
  "transform_frame fmean parse df =
     and_then (clean_numeric fmean parse df) (\<lambda>cleaned. add_features (fill_unknown cleaned))"

text \<open>
  \<open>transform_data\<close>: a \<open>FileNotFoundError\<close> when the raw file is not there;
  otherwise the transformed frame overwrites the staged file. When the transformation
  raises, nothing is written.
\<close>

definition transform_data ::
  "(rat \<Rightarrow> rat \<Rightarrow> rat) \<Rightarrow> (string \<Rightarrow> rat option) \<Rightarrow> 's world \<Rightarrow> error + 's world" where
  "transform_data fmean parse w =
     (case raw_csv w of
        None \<Rightarrow> Inl FileNotFoundError
      | Some raw \<Rightarrow>
          and_then (transform_frame fmean parse raw)
            (\<lambda>df. Inr (say Data_transformed
               ((emit (Write_csv Staged) (emit (Read_csv Raw) w))\<lparr>staged_csv := Some df\<rparr>))))"

section \<open>validation.py\<close>

text \<open>
  The validator has its own copy of \<open>get_supabase_client\<close>, the same as the loader's.
  \<open>get_supabase_row_count\<close> asks the store for the exact count; it returns the
  response's \<open>count\<close> when that is there and the number of rows in the response's
  \<open>data\<close> otherwise. What it raises (the settings missing, the query failing) goes to
  its caller.
\<close>

definition get_supabase_row_count :: "'s supabase \<Rightarrow> 's world \<Rightarrow> (error + nat) \<times> 's world" where
  "get_supabase_row_count api w =
     (case get_supabase_client w of
        Inl e \<Rightarrow> (Inl e, w)
      | Inr c \<Rightarrow>
          (case api_select_count api (remote w) of (reply, s) \<Rightarrow>
             (let w1 = (emit Select_count_call w)\<lparr>remote := s\<rparr> in
              case reply of
                Count_raised \<Rightarrow> (Inl RemoteError, w1)
              | Count_response (Some n) k \<Rightarrow> (Inr n, w1)
              | Count_response None k \<Rightarrow> (Inr k, w1))))"

text \<open>Check 1: no missing cell in the numeric columns that the staged frame has.\<close>

definition no_missing_numeric :: "frame \<Rightarrow> bool" where
  "no_missing_numeric df =
     list_all (\<lambda>col. length (filter (\<lambda>c. c = NA) (series col df)) = 0)
       (filter (\<lambda>col. col \<in> set (columns df)) numeric_cols)"

text \<open>Check 2: \<open>nunique\<close> counts the distinct values that are not missing.\<close>

definition nunique :: "cell list \<Rightarrow> nat" where
  "nunique s = length (remdups (filter (\<lambda>c. c \<noteq> NA) s))"

definition raw_unique :: "frame \<Rightarrow> nat" where
  "raw_unique raw_df =
     (if ''customerID'' \<in> set (columns raw_df) then nunique (series ''customerID'' raw_df)
      else length (records raw_df))"

definition unique_match :: "frame \<Rightarrow> frame \<Rightarrow> bool" where
  "unique_match raw_df df = (length (records df) = raw_unique raw_df)"

text \<open>
  Checks 4 and 5 compare texts: \<open>dropna().astype(str).unique()\<close>. The text of a number
  is none of the expected labels, so only the cells of text count here.
\<close>

fun text_of :: "cell \<Rightarrow> string list" where
  "text_of (Str t) = [t]"
| "text_of c = []"

definition segments_present :: "string \<Rightarrow> frame \<Rightarrow> string set" where
  "segments_present col df =
     (if col \<in> set (columns df) then set (concat (map text_of (series col df))) else {})"

definition tenure_segments_ok :: "frame \<Rightarrow> bool" where
  "tenure_segments_ok df =
     ({''New'', ''Regular'', ''Loyal'', ''Champion''} \<subseteq> segments_present ''tenure_group'' df)"

definition charge_segments_ok :: "frame \<Rightarrow> bool" where
  "charge_segments_ok df =
     ({''Low'', ''Medium'', ''High''} \<subseteq> segments_present ''monthly_charge_segment'' df)"

text \<open>Check 6: the codes that are not missing; there must be one, and all in 0, 1, 2.\<close>

definition actual_codes :: "frame \<Rightarrow> cell set" where
  "actual_codes df =
     (if ''contract_type_code'' \<in> set (columns df)
      then set (filter (\<lambda>c. c \<noteq> NA) (series ''contract_type_code'' df)) else {})"

definition contract_codes_ok :: "frame \<Rightarrow> bool" where
  "contract_codes_ok df =
     (actual_codes df \<subseteq> {Num 0, Num 1, Num 2} \<and> actual_codes df \<noteq> {})"

text \<open>The list \<open>checks\<close> as the run has built it at the summary.\<close>

definition checks_list :: "frame \<Rightarrow> frame \<Rightarrow> bool \<Rightarrow> (string \<times> bool) list" where
  "checks_list raw_df df supabase_ok =
     [(''No missing values in tenure, MonthlyCharges, TotalCharges'', no_missing_numeric df),
      (''Unique count of rows matches original dataset'', unique_match raw_df df),
      (''Row count matches Supabase table'', supabase_ok),
      (''All tenure_group segments exist'', tenure_segments_ok df),
      (''All monthly_charge_segment segments exist'', charge_segments_ok df),
      (''Contract codes are only {0,1,2}'', contract_codes_ok df)]"

text \<open>Check 3: the \<open>try\<close> around the count, and what is printed for it.\<close>

definition check_row_count :: "'s supabase \<Rightarrow> nat \<Rightarrow> 's world \<Rightarrow> bool \<times> 's world" where
  "check_row_count api transformed_rows w =
     (case get_supabase_row_count api w of
        (Inr supabase_count, w1) \<Rightarrow>
          (if supabase_count = transformed_rows then (True, say (Check_line 3 True) w1)
           else (False, say (Row_count_mismatch supabase_count transformed_rows) w1))
      | (Inl e, w1) \<Rightarrow>
          (False, say Row_count_not_validated (say Could_not_get_row_count w1)))"

text \<open>
  For stating what check 3 does: whether the store's answer matches \<open>n\<close>, and the
  messages printed for an answer. Both are shown below to be what \<open>check_row_count\<close>
  computes.
\<close>

definition count_matches :: "'s supabase \<Rightarrow> 's world \<Rightarrow> nat \<Rightarrow> bool" where
  "count_matches api w n =
     (case get_supabase_client w of
        Inl e \<Rightarrow> False
      | Inr c \<Rightarrow>
          (case fst (api_select_count api (remote w)) of
             Count_raised \<Rightarrow> False
           | Count_response (Some k) d \<Rightarrow> k = n
           | Count_response None d \<Rightarrow> d = n))"

definition row_count_messages :: "count_reply \<Rightarrow> nat \<Rightarrow> message list" where
  "row_count_messages reply n =
     (case reply of
        Count_raised \<Rightarrow> [Could_not_get_row_count, Row_count_not_validated]
      | Count_response (Some k) d \<Rightarrow>
          (if k = n then [Check_line 3 True] else [Row_count_mismatch k n])
      | Count_response None d \<Rightarrow>
          (if d = n then [Check_line 3 True] else [Row_count_mismatch d n]))"

definition validate :: "'s supabase \<Rightarrow> 's world \<Rightarrow> 's world" where
  "validate api w =
     (case raw_csv w of
        None \<Rightarrow> say Raw_file_not_found w
      | Some raw_df \<Rightarrow>
          (case staged_csv w of
             None \<Rightarrow> say Run_transform_first (say Transformed_file_not_found w)
           | Some df \<Rightarrow>
               (let w1 = say Starting_validation (emit (Read_csv Staged) (emit (Read_csv Raw) w));
                    w2 = say (Check_line 1 (no_missing_numeric df)) w1;
                    w3 = say (Check_line 2 (unique_match raw_df df)) w2;
                    (supabase_ok, w4) = check_row_count api (length (records df)) w3;
                    w5 = say (Check_line 4 (tenure_segments_ok df)) w4;
                    w6 = say (Check_line 5 (charge_segments_ok df)) w5;
                    w7 = say (Check_line 6 (contract_codes_ok df)) w6;
                    checks = checks_list raw_df df supabase_ok;
                    w8 = fold (\<lambda>(name, ok). say (Summary_line name ok)) checks
                           (say Summary_header w7);
                    all_ok = list_all snd checks
                in say (if all_ok then All_checks_passed else Some_checks_failed) w8)))"

section \<open>Reading a trace\<close>

text \<open>The payloads of the insert calls of a trace, the waits, and how each batch ended.\<close>

fun insert_calls :: "io list \<Rightarrow> db_row list list" where
  "insert_calls [] = []"
| "insert_calls (Insert_call recs # t) = recs # insert_calls t"
| "insert_calls (e # t) = insert_calls t"

fun sleeps :: "io list \<Rightarrow> nat list" where
  "sleeps [] = []"
| "sleeps (Sleep d # t) = d # sleeps t"
| "sleeps (e # t) = sleeps t"

fun batch_outcomes :: "io list \<Rightarrow> (nat \<times> bool) list" where
  "batch_outcomes [] = []"
| "batch_outcomes (Print (Batch_inserted bn a b c) # t) = (bn, True) # batch_outcomes t"
| "batch_outcomes (Print (Max_retries_reached bn) # t) = (bn, False) # batch_outcomes t"
| "batch_outcomes (e # t) = batch_outcomes t"

text \<open>The summary lines of a trace, and the events that change a file or the store.\<close>

fun summary :: "io list \<Rightarrow> (string \<times> bool) list" where
  "summary [] = []"
| "summary (Print (Summary_line name ok) # t) = (name, ok) # summary t"
| "summary (e # t) = summary t"

fun is_mutation :: "io \<Rightarrow> bool" where
  "is_mutation (Write_csv f) = True"
| "is_mutation (Insert_call recs) = True"
| "is_mutation Rpc_call = True"
| "is_mutation e = False"

fun is_remote_call :: "io \<Rightarrow> bool" where
  "is_remote_call (Insert_call recs) = True"
| "is_remote_call Rpc_call = True"
| "is_remote_call Select_count_call = True"
| "is_remote_call e = False"

fun is_read :: "io \<Rightarrow> bool" where
  "is_read (Read_csv f) = True"
| "is_read e = False"

section \<open>A store and inputs for examples\<close>

text \<open>
  A store that keeps the rows it accepted and counts the insert calls it received. It
  raises on the calls whose number (from 0) is listed, and accepts every other call,
  appending its rows. Its count query reports the number of rows kept.
\<close>

record table_store =
  table_rows :: "db_row list"
  calls :: nat

definition scripted_store :: "nat list \<Rightarrow> table_store supabase" where
  "scripted_store refused =
     \<lparr>api_insert = (\<lambda>recs s.
        if calls s \<in> set refused then (Insert_raised, s\<lparr>calls := calls s + 1\<rparr>)
        else (Insert_response None, s\<lparr>table_rows := table_rows s @ recs, calls := calls s + 1\<rparr>)),
      api_select_count = (\<lambda>s.
        (Count_response (Some (length (table_rows s))) (min 1 (length (table_rows s))), s)),
      api_rpc = (\<lambda>s. (Rpc_done, s))\<rparr>"

definition staged_example :: "nat \<Rightarrow> frame" where
  "staged_example n = \<lparr>columns = required_cols, records = replicate n (\<lambda>c. Str c)\<rparr>"

definition example_world :: "frame option \<Rightarrow> frame option \<Rightarrow> table_store world" where
  "example_world raw staged =
     \<lparr>SUPABASE_URL = Some ''https://example.supabase.co'', SUPABASE_KEY = Some ''secret'',
      raw_csv = raw, staged_csv = staged,
      remote = \<lparr>table_rows = [], calls = 0\<rparr>, trace = []\<rparr>"

text \<open>
  A raw file of four customers. \<open>TotalCharges\<close> is a column of text, blank for the
  first customer; one tenure and one monthly charge are missing; one tenure is negative.
\<close>

definition row :: "(string \<times> cell) list \<Rightarrow> string \<Rightarrow> cell" where
  "row cells c = (case map_of cells c of Some v \<Rightarrow> v | None \<Rightarrow> NA)"

definition raw_columns :: "string list" where
  "raw_columns =
     [''customerID'', ''gender'', ''tenure'', ''MonthlyCharges'', ''TotalCharges'', ''Churn'',
      ''InternetService'', ''Contract'', ''PaymentMethod'', ''MultipleLines'']"

definition raw_row ::
  "string \<Rightarrow> cell \<Rightarrow> cell \<Rightarrow> string \<Rightarrow> string \<Rightarrow> string \<Rightarrow> string \<Rightarrow> string \<Rightarrow> cell" where
  "raw_row customer tenure charge total_text internet contract lines =
     row [(''customerID'', Str customer), (''gender'', Str ''Female''), (''tenure'', tenure),
          (''MonthlyCharges'', charge), (''TotalCharges'', Str total_text), (''Churn'', Str ''No''),
          (''InternetService'', Str internet), (''Contract'', Str contract),
          (''PaymentMethod'', Str ''Mailed check''), (''MultipleLines'', Str lines)]"

definition raw_example :: frame where
  "raw_example =
     \<lparr>columns = raw_columns,
      records =
        [raw_row ''A'' (Num 12) (Num (597 / 20)) '' '' ''DSL'' ''Month-to-month'' ''No'',
         raw_row ''B'' NA (Num 70) ''100.5'' ''Fiber optic'' ''One year'' ''Yes'',
         raw_row ''C'' (Num (- 1)) NA ''20'' ''No'' ''Two year'' ''No phone service'',
         raw_row ''D'' (Num 61) (Num 80) ''300'' ''Satellite'' ''Weekly'' ''Yes'']\<rparr>"

text \<open>
  For the examples: the mean of two values, which float64 computes without rounding for
  the values used there.
\<close>

definition exact_mean :: "rat \<Rightarrow> rat \<Rightarrow> rat" where
  "exact_mean a b = (a + b) / 2"

definition parse_example :: "string \<Rightarrow> rat option" where
  "parse_example = map_of [(''100.5'', 201 / 2), (''20'', 20), (''300'', 300)]"

text \<open>A column of the transformer's result, for reading examples.\<close>

definition transformed_column :: "string \<Rightarrow> error + frame \<Rightarrow> error + cell list" where
  "transformed_column name result = and_then result (getitem name)"

text \<open>
  A staged file of four records that has every tenure group, every charge segment and
  the three contract codes; and a store whose count query raises.
\<close>

definition staged_row :: "rat \<Rightarrow> rat \<Rightarrow> string \<Rightarrow> string \<Rightarrow> rat \<Rightarrow> string \<Rightarrow> cell" where
  "staged_row tenure charge tenure_group segment code =
     row [(''tenure'', Num tenure), (''MonthlyCharges'', Num charge),
          (''TotalCharges'', Num (tenure * charge)), (''Churn'', Str ''No''),
          (''InternetService'', Str ''DSL''), (''Contract'', Str ''One year''),
          (''PaymentMethod'', Str ''Mailed check''), (''tenure_group'', Str tenure_group),
          (''monthly_charge_segment'', Str segment), (''has_internet_service'', Num 1),
          (''is_multi_line_user'', Num 0), (''contract_type_code'', Num code)]"

definition staged_small :: frame where
  "staged_small =
     \<lparr>columns = required_cols,
      records =
        [staged_row 5 20 ''New'' ''Low'' 0, staged_row 20 50 ''Regular'' ''Medium'' 1,
         staged_row 50 80 ''Loyal'' ''High'' 2, staged_row 70 90 ''Champion'' ''High'' 2]\<rparr>"

definition failing_count_store :: "table_store supabase" where
  "failing_count_store = (scripted_store [])\<lparr>api_select_count := (\<lambda>s. (Count_raised, s))\<rparr>"

text \<open>
  Two worlds over that store: one with both settings, the staged file and four rows in
  the remote table; one with the same files and no \<open>SUPABASE_URL\<close>.
\<close>

definition loaded_world :: "table_store world" where
  "loaded_world =
     (example_world (Some raw_example) (Some staged_small))
       \<lparr>remote := \<lparr>table_rows = to_dict_records staged_small, calls = 0\<rparr>\<rparr>"

definition unconfigured_world :: "table_store world" where
  "unconfigured_world =
     (example_world (Some raw_example) (Some staged_small))\<lparr>SUPABASE_URL := None\<rparr>"



definition uncounted_store :: "table_store supabase" where
  "uncounted_store =
     (scripted_store [])\<lparr>api_select_count :=
        (\<lambda>s. (Count_response None (min 1 (length (table_rows s))), s))\<rparr>"

definition one_row_world :: "table_store world" where
  "one_row_world =
     loaded_world\<lparr>staged_csv := Some (staged_small\<lparr>records := take 1 (records staged_small)\<rparr>)\<rparr>"

section \<open>Properties of the loader\<close>

subsection \<open>Batching\<close>

lemma batch_offsets_step:
  "i < n \<Longrightarrow> batch_offsets i n = i # batch_offsets (i + BATCH_SIZE) n"
  by (subst batch_offsets.simps) simp

lemma batch_offsets_done:
  "\<not> i < n \<Longrightarrow> batch_offsets i n = []"
  by (subst batch_offsets.simps) simp

lemma concat_batches_from:
  "concat (map (\<lambda>i. take BATCH_SIZE (drop i xs)) (batch_offsets i (length xs))) = drop i xs"
proof (induction i "length xs" rule: batch_offsets.induct)
  case (1 i)
  show ?case
  proof (cases "i < length xs")
    case True
    have "take BATCH_SIZE (drop i xs) @ drop (i + BATCH_SIZE) xs = drop i xs"
      using append_take_drop_id [of BATCH_SIZE "drop i xs"] by (simp add: add.commute)
    with True 1 show ?thesis by (simp add: batch_offsets_step)
  next
    case False
    then show ?thesis by (simp add: batch_offsets_done)
  qed
qed

lemma ceil_step_200:
  assumes "i < n"
  shows "Suc ((n - (i + 200) + 199) div 200) = (n - i + 199) div (200::nat)"
proof (cases "i + 200 \<le> n")
  case True
  then obtain k where k: "n = i + 200 + k"
    by (auto simp: le_iff_add)
  have "(k + 399) div 200 = Suc ((k + 199) div (200::nat))"
    using div_add_self2 [of 200 "k + 199"] by simp
  then show ?thesis by (simp add: k)
next
  case False
  with assms obtain m where m: "n = i + m" "0 < m" "m < 200"
    by (metis add_diff_inverse_nat less_imp_add_positive nat_add_left_cancel_less not_le order.asym)
  have "(m + 199) div 200 = (1::nat)"
    using m by (simp add: div_nat_eqI)
  with m show ?thesis by simp
qed

lemma length_batch_offsets:
  "length (batch_offsets i n) = (n - i + 199) div 200"
proof (induction i n rule: batch_offsets.induct)
  case (1 i n)
  show ?case
  proof (cases "i < n")
    case True
    with 1 have "length (batch_offsets i n) = Suc ((n - (i + 200) + 199) div 200)"
      by (simp add: batch_offsets_step BATCH_SIZE_def)
    also have "\<dots> = (n - i + 199) div 200" using True by (rule ceil_step_200)
    finally show ?thesis .
  next
    case False
    then show ?thesis by (simp add: batch_offsets_done)
  qed
qed

lemma ceil_div_200: "(n + 199) div 200 = nat \<lceil>real n / 200\<rceil>"
  by linarith

lemma batch_offsets_450: "batch_offsets 0 450 = [0, 200, 400]"
  by (simp add: batch_offsets_step batch_offsets_done BATCH_SIZE_def)

lemma batch_offsets_bound: "j \<in> set (batch_offsets i n) \<Longrightarrow> i \<le> j \<and> j < n"
proof (induction i n rule: batch_offsets.induct)
  case (1 i n)
  show ?case
  proof (cases "i < n")
    case True
    with 1 show ?thesis by (auto simp: batch_offsets_step)
  next
    case False
    with 1 show ?thesis by (simp add: batch_offsets_done)
  qed
qed

text \<open>
  The slices of a frame: put together they are its rows again, each has between 1 and
  200 rows, and there are \<open>\<lceil>n / 200\<rceil>\<close> of them; for 450 rows they have 200, 200 and
  50 rows.
\<close>

lemma batches_shape:
  "concat (map records (batches df)) = records df \<and>
   (\<forall>b \<in> set (batches df). 1 \<le> length (records b) \<and> length (records b) \<le> 200) \<and>
   length (batches df) = nat \<lceil>real (length (records df)) / 200\<rceil> \<and>
   (length (records df) = 450 \<longrightarrow> map (\<lambda>b. length (records b)) (batches df) = [200, 200, 50])"
proof (intro conjI ballI impI)
  have "map records (batches df) =
      map (\<lambda>i. take BATCH_SIZE (drop i (records df))) (batch_offsets 0 (length (records df)))"
    by (simp add: batches_def iloc_def)
  then show "concat (map records (batches df)) = records df"
    using concat_batches_from [of "records df" 0] by simp
next
  fix b assume "b \<in> set (batches df)"
  then obtain i where i: "i \<in> set (batch_offsets 0 (length (records df)))"
    and b: "b = iloc df i (i + BATCH_SIZE)"
    by (auto simp: batches_def)
  from i have "i < length (records df)" by (auto dest: batch_offsets_bound)
  then show "1 \<le> length (records b)" by (simp add: b iloc_def BATCH_SIZE_def)
  show "length (records b) \<le> 200" by (simp add: b iloc_def BATCH_SIZE_def)
next
  show "length (batches df) = nat \<lceil>real (length (records df)) / 200\<rceil>"
    using length_batch_offsets [of 0 "length (records df)"] ceil_div_200 [of "length (records df)"]
    by (simp add: batches_def)
next
  assume "length (records df) = 450"
  then show "map (\<lambda>b. length (records b)) (batches df) = [200, 200, 50]"
    by (simp add: batches_def batch_offsets_450 iloc_def BATCH_SIZE_def)
qed

subsection \<open>The retry loop and the run\<close>


lemma insert_calls_append: "insert_calls (t @ u) = insert_calls t @ insert_calls u"
  by (induction t rule: insert_calls.induct) simp_all

lemma sleeps_append: "sleeps (t @ u) = sleeps t @ sleeps u"
  by (induction t rule: sleeps.induct) simp_all

lemma batch_outcomes_append: "batch_outcomes (t @ u) = batch_outcomes t @ batch_outcomes u"
  by (induction t rule: batch_outcomes.induct) simp_all

lemma retry_loop_success:
  assumes "a \<le> MAX_RETRIES" "api_insert api recs (remote w) = (r, s)" "\<not> insert_failed r"
  shows "retry_loop api recs i n bn a w =
    say (Batch_inserted bn (i + 1) (min (i + BATCH_SIZE) n) n)
      ((emit (Insert_call recs) w)\<lparr>remote := s\<rparr>)"
  using assms by (subst retry_loop.simps) simp

lemma retry_loop_again:
  assumes "a < MAX_RETRIES" "api_insert api recs (remote w) = (r, s)" "insert_failed r"
    and "a' = a + 1"
  shows "retry_loop api recs i n bn a w =
    retry_loop api recs i n bn a'
      (emit (Sleep (2 * a)) (say (Retrying_batch bn (2 * a))
        (say (Error_in_batch bn a) ((emit (Insert_call recs) w)\<lparr>remote := s\<rparr>))))"
  using assms by (subst retry_loop.simps) (simp add: Let_def)

lemma retry_loop_give_up:
  assumes "a = MAX_RETRIES" "api_insert api recs (remote w) = (r, s)" "insert_failed r"
  shows "retry_loop api recs i n bn a w =
    say (Max_retries_reached bn)
      (say (Error_in_batch bn a) ((emit (Insert_call recs) w)\<lparr>remote := s\<rparr>))"
  using assms by (subst retry_loop.simps) (simp add: Let_def)


lemma retry_policy_pre:
  "(let call = Insert_call recs;
        err = (\<lambda>a. Print (Error_in_batch bn a));
        wait = (\<lambda>a. [Print (Retrying_batch bn (2 * a)), Sleep (2 * a)]);
        ok = Print (Batch_inserted bn (i + 1) (min (i + BATCH_SIZE) n) n);
        skip = Print (Max_retries_reached bn);
        (r1, s1) = api_insert api recs (remote w);
        (r2, s2) = api_insert api recs s1;
        (r3, s3) = api_insert api recs s2;
        w' = retry_loop api recs i n bn 1 w
    in if \<not> insert_failed r1 then
         trace w' = trace w @ [call, ok] \<and> remote w' = s1
       else if \<not> insert_failed r2 then
         trace w' = trace w @ [call, err 1] @ wait 1 @ [call, ok] \<and> remote w' = s2
       else if \<not> insert_failed r3 then
         trace w' = trace w @ [call, err 1] @ wait 1 @ [call, err 2] @ wait 2 @ [call, ok] \<and>
         remote w' = s3
       else
         trace w' = trace w @ [call, err 1] @ wait 1 @ [call, err 2] @ wait 2 @ [call, err 3, skip] \<and>
         remote w' = s3)"
proof -
  obtain r1 s1 where e1: "api_insert api recs (remote w) = (r1, s1)"
    by (cases "api_insert api recs (remote w)")
  obtain r2 s2 where e2: "api_insert api recs s1 = (r2, s2)"
    by (cases "api_insert api recs s1")
  obtain r3 s3 where e3: "api_insert api recs s2 = (r3, s3)"
    by (cases "api_insert api recs s2")
  define w1 where "w1 = emit (Sleep (2 * 1)) (say (Retrying_batch bn (2 * 1))
        (say (Error_in_batch bn 1) ((emit (Insert_call recs) w)\<lparr>remote := s1\<rparr>)))"
  define w2 where "w2 = emit (Sleep (2 * 2)) (say (Retrying_batch bn (2 * 2))
        (say (Error_in_batch bn 2) ((emit (Insert_call recs) w1)\<lparr>remote := s2\<rparr>)))"
  have rem1: "remote w1 = s1" and rem2: "remote w2 = s2"
    by (simp_all add: w1_def w2_def emit_def say_def)
  consider (first) "\<not> insert_failed r1"
    | (second) "insert_failed r1" "\<not> insert_failed r2"
    | (third) "insert_failed r1" "insert_failed r2" "\<not> insert_failed r3"
    | (none) "insert_failed r1" "insert_failed r2" "insert_failed r3"
    by blast
  then show ?thesis
  proof cases
    case first
    then show ?thesis
      using retry_loop_success [of 1 api recs w r1 s1 i n bn] e1
      by (simp add: e2 e3 MAX_RETRIES_def emit_def say_def)
  next
    case second
    have "retry_loop api recs i n bn 1 w = retry_loop api recs i n bn 2 w1"
      unfolding w1_def
      by (rule retry_loop_again [of 1 api recs w r1 s1 2 i n bn])
         (simp_all add: MAX_RETRIES_def e1 second)
    also have "\<dots> = say (Batch_inserted bn (i + 1) (min (i + BATCH_SIZE) n) n)
        ((emit (Insert_call recs) w1)\<lparr>remote := s2\<rparr>)"
      by (rule retry_loop_success [of 2 api recs w1 r2 s2 i n bn])
         (simp_all add: MAX_RETRIES_def rem1 e2 second)
    finally show ?thesis
      using second by (simp add: e1 e2 e3 w1_def emit_def say_def)
  next
    case third
    have "retry_loop api recs i n bn 1 w = retry_loop api recs i n bn 2 w1"
      unfolding w1_def
      by (rule retry_loop_again [of 1 api recs w r1 s1 2 i n bn])
         (simp_all add: MAX_RETRIES_def e1 third)
    also have "\<dots> = retry_loop api recs i n bn 3 w2"
      unfolding w2_def
      by (rule retry_loop_again [of 2 api recs w1 r2 s2 3 i n bn])
         (simp_all add: MAX_RETRIES_def rem1 e2 third)
    also have "\<dots> = say (Batch_inserted bn (i + 1) (min (i + BATCH_SIZE) n) n)
        ((emit (Insert_call recs) w2)\<lparr>remote := s3\<rparr>)"
      by (rule retry_loop_success [of 3 api recs w2 r3 s3 i n bn])
         (simp_all add: MAX_RETRIES_def rem2 e3 third)
    finally show ?thesis
      using third by (simp add: e1 e2 e3 w1_def w2_def emit_def say_def)
  next
    case none
    have "retry_loop api recs i n bn 1 w = retry_loop api recs i n bn 2 w1"
      unfolding w1_def
      by (rule retry_loop_again [of 1 api recs w r1 s1 2 i n bn])
         (simp_all add: MAX_RETRIES_def e1 none)
    also have "\<dots> = retry_loop api recs i n bn 3 w2"
      unfolding w2_def
      by (rule retry_loop_again [of 2 api recs w1 r2 s2 3 i n bn])
         (simp_all add: MAX_RETRIES_def rem1 e2 none)
    also have "\<dots> = say (Max_retries_reached bn)
        (say (Error_in_batch bn 3) ((emit (Insert_call recs) w2)\<lparr>remote := s3\<rparr>))"
      by (rule retry_loop_give_up [of 3 api recs w2 r3 s3 i n bn])
         (simp_all add: MAX_RETRIES_def rem2 e3 none)
    finally show ?thesis
      using none by (simp add: e1 e2 e3 w1_def w2_def emit_def say_def)
  qed
qed


lemma retry_loop_summary:
  obtains new k ok where
    "trace (retry_loop api recs i n bn 1 w) = trace w @ new"
    "insert_calls new = replicate k recs" "1 \<le> k" "k \<le> 3"
    "batch_outcomes new = [(bn, ok)]"
    "sleeps new = map (\<lambda>a. 2 * a) [1..<k]"
    "ok \<or> k = 3"
proof -
  obtain r1 s1 where e1: "api_insert api recs (remote w) = (r1, s1)"
    by (cases "api_insert api recs (remote w)")
  obtain r2 s2 where e2: "api_insert api recs s1 = (r2, s2)"
    by (cases "api_insert api recs s1")
  obtain r3 s3 where e3: "api_insert api recs s2 = (r3, s3)"
    by (cases "api_insert api recs s2")
  note pol = retry_policy_pre [where api = api and recs = recs and w = w and i = i and n = n
      and bn = bn, unfolded Let_def e1 e2 e3 prod.case]
  consider (first) "\<not> insert_failed r1"
    | (second) "insert_failed r1" "\<not> insert_failed r2"
    | (third) "insert_failed r1" "insert_failed r2" "\<not> insert_failed r3"
    | (none) "insert_failed r1" "insert_failed r2" "insert_failed r3"
    by blast
  then show ?thesis
  proof cases
    case first
    with pol have t: "trace (retry_loop api recs i n bn 1 w) = trace w @
        [Insert_call recs, Print (Batch_inserted bn (i + 1) (min (i + BATCH_SIZE) n) n)]"
      by simp
    show ?thesis
      by (rule that [OF t, of 1 True]) simp_all
  next
    case second
    with pol have t: "trace (retry_loop api recs i n bn 1 w) = trace w @
        [Insert_call recs, Print (Error_in_batch bn 1), Print (Retrying_batch bn 2), Sleep 2,
         Insert_call recs, Print (Batch_inserted bn (i + 1) (min (i + BATCH_SIZE) n) n)]"
      by simp
    show ?thesis
      by (rule that [OF t, of 2 True]) (simp_all add: numeral_2_eq_2)
  next
    case third
    with pol have t: "trace (retry_loop api recs i n bn 1 w) = trace w @
        [Insert_call recs, Print (Error_in_batch bn 1), Print (Retrying_batch bn 2), Sleep 2,
         Insert_call recs, Print (Error_in_batch bn 2), Print (Retrying_batch bn 4), Sleep 4,
         Insert_call recs, Print (Batch_inserted bn (i + 1) (min (i + BATCH_SIZE) n) n)]"
      by simp
    show ?thesis
      by (rule that [OF t, of 3 True]) (simp_all add: numeral_3_eq_3 upt_rec)
  next
    case none
    with pol have t: "trace (retry_loop api recs i n bn 1 w) = trace w @
        [Insert_call recs, Print (Error_in_batch bn 1), Print (Retrying_batch bn 2), Sleep 2,
         Insert_call recs, Print (Error_in_batch bn 2), Print (Retrying_batch bn 4), Sleep 4,
         Insert_call recs, Print (Error_in_batch bn 3), Print (Max_retries_reached bn)]"
      by simp
    show ?thesis
      by (rule that [OF t, of 3 False]) (simp_all add: numeral_3_eq_3 upt_rec)
  qed
qed

lemma load_batches_trace:
  "\<exists>new ks. trace (load_batches api df n offs w) = trace w @ new \<and>
     length ks = length offs \<and> (\<forall>k \<in> set ks. 1 \<le> k \<and> k \<le> 3) \<and>
     insert_calls new =
       concat (map (\<lambda>(k, i). replicate k
         (to_dict_records (where_notnull (iloc df i (i + BATCH_SIZE))))) (zip ks offs)) \<and>
     length (insert_calls new) = sum_list ks \<and>
     map fst (batch_outcomes new) = map (\<lambda>i. i div BATCH_SIZE + 1) offs"
proof (induction offs arbitrary: w)
  case Nil
  show ?case by simp
next
  case (Cons i offs)
  define recs where "recs = to_dict_records (where_notnull (iloc df i (i + BATCH_SIZE)))"
  define w1 where "w1 = retry_loop api recs i n (i div BATCH_SIZE + 1) 1 w"
  obtain new1 k ok where one:
    "trace w1 = trace w @ new1" "insert_calls new1 = replicate k recs" "1 \<le> k" "k \<le> 3"
    "batch_outcomes new1 = [(i div BATCH_SIZE + 1, ok)]"
    unfolding w1_def by (rule retry_loop_summary [of api recs i n "i div BATCH_SIZE + 1" w])
  from Cons.IH [of w1] obtain new2 ks where rest:
    "trace (load_batches api df n offs w1) = trace w1 @ new2"
    "length ks = length offs" "\<forall>k \<in> set ks. 1 \<le> k \<and> k \<le> 3"
    "insert_calls new2 =
       concat (map (\<lambda>(k, i). replicate k
         (to_dict_records (where_notnull (iloc df i (i + BATCH_SIZE))))) (zip ks offs))"
    "length (insert_calls new2) = sum_list ks"
    "map fst (batch_outcomes new2) = map (\<lambda>i. i div BATCH_SIZE + 1) offs"
    by blast
  have step: "load_batches api df n (i # offs) w = load_batches api df n offs w1"
    unfolding w1_def recs_def by (simp add: Let_def)
  show ?case
  proof (intro exI [of _ "new1 @ new2"] exI [of _ "k # ks"] conjI)
    show "trace (load_batches api df n (i # offs) w) = trace w @ new1 @ new2"
      unfolding step rest(1) one(1) by simp
    show "length (k # ks) = length (i # offs)" by (simp add: rest(2))
    show "\<forall>k \<in> set (k # ks). 1 \<le> k \<and> k \<le> 3" using one(3,4) rest(3) by simp
    show "insert_calls (new1 @ new2) =
       concat (map (\<lambda>(k, i). replicate k
         (to_dict_records (where_notnull (iloc df i (i + BATCH_SIZE))))) (zip (k # ks) (i # offs)))"
      by (simp add: insert_calls_append one(2) rest(4) recs_def)
    show "length (insert_calls (new1 @ new2)) = sum_list (k # ks)"
      by (simp add: insert_calls_append one(2) rest(5))
    show "map fst (batch_outcomes (new1 @ new2)) = map (\<lambda>i. i div BATCH_SIZE + 1) (i # offs)"
      by (simp add: batch_outcomes_append one(5) rest(6))
  qed
qed

lemma sum_list_bounds:
  "\<forall>k \<in> set ks. 1 \<le> k \<and> k \<le> (3::nat) \<Longrightarrow> length ks \<le> sum_list ks \<and> sum_list ks \<le> 3 * length ks"
  by (induction ks) auto

lemma batch_offsets_eq:
  "batch_offsets i n = map (\<lambda>k. i + k * BATCH_SIZE) [0..<(n - i + 199) div 200]"
proof (induction i n rule: batch_offsets.induct)
  case (1 i n)
  show ?case
  proof (cases "i < n")
    case True
    have len: "(n - i + 199) div 200 = Suc ((n - (i + 200) + 199) div 200)"
      using True by (rule ceil_step_200 [symmetric])
    have "batch_offsets i n = i # map (\<lambda>k. i + BATCH_SIZE + k * BATCH_SIZE)
        [0..<(n - (i + 200) + 199) div 200]"
      using True 1 by (simp add: batch_offsets_step BATCH_SIZE_def)
    also have "\<dots> = map (\<lambda>k. i + k * BATCH_SIZE) [0..<(n - i + 199) div 200]"
      unfolding len by (simp add: upt_conv_Cons map_Suc_upt [symmetric] del: upt_Suc)
    finally show ?thesis .
  next
    case False
    then show ?thesis by (simp add: batch_offsets_done)
  qed
qed

lemma batch_numbers:
  "map (\<lambda>i. i div BATCH_SIZE + 1) (batch_offsets 0 n) = [1..<Suc ((n + 199) div 200)]"
  by (simp add: batch_offsets_eq BATCH_SIZE_def map_Suc_upt [symmetric] del: upt_Suc)


lemma emit_fields [simp]:
  "trace (emit e w) = trace w @ [e]" "remote (emit e w) = remote w"
  "raw_csv (emit e w) = raw_csv w" "staged_csv (emit e w) = staged_csv w"
  "SUPABASE_URL (emit e w) = SUPABASE_URL w" "SUPABASE_KEY (emit e w) = SUPABASE_KEY w"
  by (simp_all add: emit_def)

lemma say_fields [simp]:
  "trace (say m w) = trace w @ [Print m]" "remote (say m w) = remote w"
  "raw_csv (say m w) = raw_csv w" "staged_csv (say m w) = staged_csv w"
  "SUPABASE_URL (say m w) = SUPABASE_URL w" "SUPABASE_KEY (say m w) = SUPABASE_KEY w"
  by (simp_all add: say_def)

lemma get_supabase_client_emit [simp]:
  "get_supabase_client (emit e w) = get_supabase_client w"
  by (simp add: get_supabase_client_def emit_def)

lemma get_supabase_client_say [simp]:
  "get_supabase_client (say m w) = get_supabase_client w"
  by (simp add: say_def)

lemma load_to_supabase_loop:
  assumes "staged_csv w = Some df" "get_supabase_client w = Inr c"
    "set required_cols \<subseteq> set (columns df)"
  shows "load_to_supabase api w =
    say Finished_loading
      (load_batches api (select_columns required_cols df) (length (records df))
        (batch_offsets 0 (length (records df)))
        (say (Loading_rows (length (records df)))
          (emit (Read_csv Staged) (say Looking_for_data_file w))))"
proof -
  have c: "get_supabase_client (say Looking_for_data_file w) = Inr c"
    using assms(2) by simp
  have m: "filter (\<lambda>c. c \<notin> set (columns df)) required_cols = []"
    using assms(3) by (auto simp: filter_empty_conv)
  show ?thesis
    unfolding load_to_supabase_def Let_def
    by (simp add: assms(1,2) m select_columns_def)
qed

lemma load_to_supabase_no_client:
  assumes "staged_csv w = Some df" "get_supabase_client w = Inl e"
  shows "load_to_supabase api w = say (Error_loading_data e) (say Looking_for_data_file w)"
proof -
  have c: "get_supabase_client (say Looking_for_data_file w) = Inl e"
    using assms(2) by simp
  show ?thesis
    unfolding load_to_supabase_def Let_def
    by (simp add: assms(1,2))
qed

lemma load_to_supabase_missing:
  assumes "staged_csv w = Some df" "get_supabase_client w = Inr c"
    "\<not> set required_cols \<subseteq> set (columns df)"
  shows "load_to_supabase api w =
    say (Missing_required_columns (filter (\<lambda>c. c \<notin> set (columns df)) required_cols))
      (emit (Read_csv Staged) (say Looking_for_data_file w))"
proof -
  have c: "get_supabase_client (say Looking_for_data_file w) = Inr c"
    using assms(2) by simp
  have m: "filter (\<lambda>c. c \<notin> set (columns df)) required_cols \<noteq> []"
    using assms(3) by (auto simp: filter_empty_conv)
  show ?thesis
    unfolding load_to_supabase_def Let_def
    by (simp add: assms(1,2) m)
qed

lemma load_to_supabase_no_file:
  assumes "staged_csv w = None"
  shows "load_to_supabase api w =
    say Run_transform_first (say File_not_found (say Looking_for_data_file w))"
  unfolding load_to_supabase_def Let_def
  by (simp add: assms)


lemma get_supabase_client_cases:
  "get_supabase_client w = Inl ValueError \<and> (falsy (SUPABASE_URL w) \<or> falsy (SUPABASE_KEY w)) \<or>
   (\<exists>c. get_supabase_client w = Inr c) \<and> \<not> falsy (SUPABASE_URL w) \<and> \<not> falsy (SUPABASE_KEY w)"
  by (simp add: get_supabase_client_def)

text \<open>
  C5. When one of the twelve required columns is not a column of the staged file, the
  loader returns before the batch loop: the run issues no insert call and leaves the
  remote store as it was.
\<close>

theorem missing_columns_abort:
  assumes "staged_csv w = Some df" and "c \<in> set required_cols" and "c \<notin> set (columns df)"
  shows "\<exists>new. trace (load_to_supabase api w) = trace w @ new \<and> insert_calls new = [] \<and>
           remote (load_to_supabase api w) = remote w"
proof -
  from assms(2,3) have miss: "\<not> set required_cols \<subseteq> set (columns df)"
    by blast
  consider (no_client) "get_supabase_client w = Inl ValueError"
    | (client) cl where "get_supabase_client w = Inr cl"
    using get_supabase_client_cases [of w] by blast
  then show ?thesis
  proof cases
    case no_client
    then show ?thesis
      by (simp add: load_to_supabase_no_client [OF assms(1)])
  next
    case client
    then show ?thesis
      by (simp add: load_to_supabase_missing [OF assms(1) _ miss])
  qed
qed

theorem missing_columns_abort_witness:
  "insert_calls (trace (load_to_supabase (scripted_store [])
      (example_world None (Some \<lparr>columns = [''tenure'', ''Churn''], records = [\<lambda>c. Str c]\<rparr>)))) = [] \<and>
   table_rows (remote (load_to_supabase (scripted_store [])
      (example_world None (Some \<lparr>columns = [''tenure'', ''Churn''], records = [\<lambda>c. Str c]\<rparr>)))) = []"
  using missing_columns_abort [of
      "example_world None (Some \<lparr>columns = [''tenure'', ''Churn''], records = [\<lambda>c. Str c]\<rparr>)"
      "\<lparr>columns = [''tenure'', ''Churn''], records = [\<lambda>c. Str c]\<rparr>" "''Contract''"
      "scripted_store []"]
  by (auto simp: example_world_def required_cols_def)

text \<open>
  C9. Both loops of the loader are total functions (their termination is proved where
  they are defined), so every run ends. A run over a staged file of \<open>n\<close> rows issues
  at most \<open>3 * \<lceil>n / 200\<rceil>\<close> insert calls. When the settings and the required columns
  are there, so that the batch loop is reached, the batches \<open>1, \<dots>, \<lceil>n / 200\<rceil>\<close> each
  end exactly once, in this order, and each batch is sent between one and three times.
\<close>

theorem loader_bounded:
  assumes "staged_csv w = Some df"
  shows "\<exists>new. trace (load_to_supabase api w) = trace w @ new \<and>
    length (insert_calls new) \<le> 3 * nat \<lceil>real (length (records df)) / 200\<rceil> \<and>
    (\<not> falsy (SUPABASE_URL w) \<and> \<not> falsy (SUPABASE_KEY w) \<and>
     set required_cols \<subseteq> set (columns df) \<longrightarrow>
       map fst (batch_outcomes new) = [1..<Suc (nat \<lceil>real (length (records df)) / 200\<rceil>)] \<and>
       (\<exists>ks. length ks = nat \<lceil>real (length (records df)) / 200\<rceil> \<and>
          (\<forall>k \<in> set ks. 1 \<le> k \<and> k \<le> MAX_RETRIES) \<and>
          insert_calls new =
            concat (map (\<lambda>(k, b). replicate k (to_dict_records (where_notnull b)))
              (zip ks (batches (select_columns required_cols df))))))"
proof -
  let ?n = "length (records df)"
  let ?df = "select_columns required_cols df"
  consider (no_client) "get_supabase_client w = Inl ValueError"
      "falsy (SUPABASE_URL w) \<or> falsy (SUPABASE_KEY w)"
    | (missing) cl where "get_supabase_client w = Inr cl"
      "\<not> set required_cols \<subseteq> set (columns df)"
    | (loop) cl where "get_supabase_client w = Inr cl"
      "set required_cols \<subseteq> set (columns df)"
    using get_supabase_client_cases [of w] by blast
  then show ?thesis
  proof cases
    case no_client
    then show ?thesis
      by (auto simp: load_to_supabase_no_client [OF assms])
  next
    case missing
    then show ?thesis
      by (simp add: load_to_supabase_missing [OF assms])
  next
    case loop
    define w0 where "w0 = say (Loading_rows ?n)
        (emit (Read_csv Staged) (say Looking_for_data_file w))"
    obtain new ks where run:
      "trace (load_batches api ?df ?n (batch_offsets 0 ?n) w0) = trace w0 @ new"
      "length ks = length (batch_offsets 0 ?n)" "\<forall>k \<in> set ks. 1 \<le> k \<and> k \<le> 3"
      "insert_calls new =
         concat (map (\<lambda>(k, i). replicate k
           (to_dict_records (where_notnull (iloc ?df i (i + BATCH_SIZE)))))
           (zip ks (batch_offsets 0 ?n)))"
      "length (insert_calls new) = sum_list ks"
      "map fst (batch_outcomes new) = map (\<lambda>i. i div BATCH_SIZE + 1) (batch_offsets 0 ?n)"
      using load_batches_trace [of api ?df ?n "batch_offsets 0 ?n" w0] by blast
    have len: "length ks = nat \<lceil>real ?n / 200\<rceil>"
      using run(2) length_batch_offsets [of 0 ?n] ceil_div_200 [of ?n] by simp
    let ?new = "[Print Looking_for_data_file, Read_csv Staged, Print (Loading_rows ?n)] @ new @
        [Print Finished_loading]"
    have tr: "trace (load_to_supabase api w) = trace w @ ?new"
      unfolding load_to_supabase_loop [OF assms loop] w0_def [symmetric]
      by (simp add: run(1)) (simp add: w0_def)
    have calls: "insert_calls ?new = insert_calls new"
      by (simp add: insert_calls_append)
    have outs: "batch_outcomes ?new = batch_outcomes new"
      by (simp add: batch_outcomes_append)
    have bound: "length (insert_calls ?new) \<le> 3 * nat \<lceil>real ?n / 200\<rceil>"
      using sum_list_bounds [OF run(3)] run(5) len calls by simp
    have nums: "map fst (batch_outcomes ?new) = [1..<Suc (nat \<lceil>real ?n / 200\<rceil>)]"
      using run(6) batch_numbers [of ?n] ceil_div_200 [of ?n] outs by simp
    have pay: "insert_calls ?new =
        concat (map (\<lambda>(k, b). replicate k (to_dict_records (where_notnull b)))
          (zip ks (batches ?df)))"
      unfolding calls run(4)
      by (simp add: batches_def zip_map2 case_prod_unfold select_columns_def comp_def)
    from run(3) have ks: "\<forall>k \<in> set ks. 1 \<le> k \<and> k \<le> MAX_RETRIES"
      by (simp add: MAX_RETRIES_def)
    show ?thesis
      using tr bound nums len ks pay by blast
  qed
qed

lemma ceil_450: "nat \<lceil>real (450::nat) / 200\<rceil> = 3"
  using ceil_div_200 [of 450] by simp

theorem loader_bounded_witness:
  "staged_csv (example_world None (Some (staged_example 450))) = Some (staged_example 450) \<and>
   length (insert_calls (trace (load_to_supabase (scripted_store [1, 2, 3])
     (example_world None (Some (staged_example 450)))))) \<le> 9 \<and>
   map fst (batch_outcomes (trace (load_to_supabase (scripted_store [1, 2, 3])
     (example_world None (Some (staged_example 450)))))) = [1, 2, 3]"
proof -
  let ?w = "example_world None (Some (staged_example 450))"
  have st: "staged_csv ?w = Some (staged_example 450)"
    by (simp add: example_world_def)
  have n: "length (records (staged_example 450)) = 450"
    by (simp add: staged_example_def)
  have pre: "\<not> falsy (SUPABASE_URL ?w) \<and> \<not> falsy (SUPABASE_KEY ?w) \<and>
      set required_cols \<subseteq> set (columns (staged_example 450))"
    by (simp add: example_world_def falsy_def staged_example_def)
  have tr: "trace ?w = []"
    by (simp add: example_world_def)
  from loader_bounded [OF st, of "scripted_store [1, 2, 3]"] pre
  show ?thesis
    unfolding n ceil_450 tr by (auto simp: st upt_rec)
qed

lemma retry_loop_policy:
  assumes "1 \<le> k" and "i = (k - 1) * BATCH_SIZE"
  shows "trace (retry_loop api recs i n k 1 w) = trace w @ fst (policy_batch api recs k n (remote w))"
    and "remote (retry_loop api recs i n k 1 w) = snd (policy_batch api recs k n (remote w))"
proof -
  have ends: "i + 1 = (k - 1) * BATCH_SIZE + 1" "i + BATCH_SIZE = k * BATCH_SIZE"
    using assms by (simp_all add: BATCH_SIZE_def algebra_simps)
  note pol = retry_policy_pre [where api = api and recs = recs and w = w and i = i and n = n
      and bn = k]
  show "trace (retry_loop api recs i n k 1 w) = trace w @ fst (policy_batch api recs k n (remote w))"
    using pol unfolding policy_batch_def Let_def case_prod_unfold ends
    by (simp split: if_splits)
  show "remote (retry_loop api recs i n k 1 w) = snd (policy_batch api recs k n (remote w))"
    using pol unfolding policy_batch_def Let_def case_prod_unfold ends
    by (simp split: if_splits)
qed

lemma load_batches_policy:
  assumes "BATCH_SIZE dvd i"
  shows "trace (load_batches api df n (batch_offsets i n) w) =
      trace w @ fst (policy_run api n (i div BATCH_SIZE + 1)
        (map (\<lambda>j. iloc df j (j + BATCH_SIZE)) (batch_offsets i n)) (remote w)) \<and>
    remote (load_batches api df n (batch_offsets i n) w) =
      snd (policy_run api n (i div BATCH_SIZE + 1)
        (map (\<lambda>j. iloc df j (j + BATCH_SIZE)) (batch_offsets i n)) (remote w))"
  using assms
proof (induction i n arbitrary: w rule: batch_offsets.induct)
  case (1 i n)
  show ?case
  proof (cases "i < n")
    case False
    then show ?thesis by (simp add: batch_offsets_done)
  next
    case True
    define recs where "recs = to_dict_records (where_notnull (iloc df i (i + BATCH_SIZE)))"
    define k where "k = i div BATCH_SIZE + 1"
    define w1 where "w1 = retry_loop api recs i n k 1 w"
    have k: "1 \<le> k" "i = (k - 1) * BATCH_SIZE"
      using "1.prems" by (auto simp: k_def)
    have next_k: "(i + BATCH_SIZE) div BATCH_SIZE + 1 = k + 1"
      by (simp add: k_def BATCH_SIZE_def)
    have dvd: "BATCH_SIZE dvd i + BATCH_SIZE"
      using "1.prems" by simp
    note one = retry_loop_policy [OF k, of api recs n w, folded w1_def]
    note rest = "1.IH" [OF True dvd, of w1, unfolded next_k]
    have step: "load_batches api df n (batch_offsets i n) w =
        load_batches api df n (batch_offsets (i + BATCH_SIZE) n) w1"
      unfolding w1_def recs_def k_def by (simp add: batch_offsets_step [OF True] Let_def)
    have run: "policy_run api n k (map (\<lambda>j. iloc df j (j + BATCH_SIZE)) (batch_offsets i n)) (remote w) =
        (fst (policy_batch api recs k n (remote w)) @
           fst (policy_run api n (k + 1)
             (map (\<lambda>j. iloc df j (j + BATCH_SIZE)) (batch_offsets (i + BATCH_SIZE) n)) (remote w1)),
         snd (policy_run api n (k + 1)
             (map (\<lambda>j. iloc df j (j + BATCH_SIZE)) (batch_offsets (i + BATCH_SIZE) n)) (remote w1)))"
      unfolding one(2)
      by (simp add: batch_offsets_step [OF True] recs_def case_prod_unfold)
    show ?thesis
      unfolding step k_def [symmetric] run
      using rest by (simp add: one(1))
  qed
qed

lemma load_to_supabase_policy:
  assumes "staged_csv w = Some df" "\<not> falsy (SUPABASE_URL w)" "\<not> falsy (SUPABASE_KEY w)"
    "set required_cols \<subseteq> set (columns df)"
  shows "trace (load_to_supabase api w) =
      trace w @ [Print Looking_for_data_file, Read_csv Staged,
                 Print (Loading_rows (length (records df)))] @
      fst (policy_run api (length (records df)) 1
        (batches (select_columns required_cols df)) (remote w)) @
      [Print Finished_loading]"
    and "remote (load_to_supabase api w) =
      snd (policy_run api (length (records df)) 1
        (batches (select_columns required_cols df)) (remote w))"
proof -
  let ?n = "length (records df)"
  let ?df = "select_columns required_cols df"
  obtain cl where cl: "get_supabase_client w = Inr cl"
    using assms(2,3) get_supabase_client_cases [of w] by auto
  define w0 where "w0 = say (Loading_rows ?n)
      (emit (Read_csv Staged) (say Looking_for_data_file w))"
  have b: "batches ?df = map (\<lambda>j. iloc ?df j (j + BATCH_SIZE)) (batch_offsets 0 ?n)"
    by (simp add: batches_def select_columns_def)
  note run = load_batches_policy [of 0 api ?df ?n w0, simplified, folded b]
  have w0: "trace w0 = trace w @ [Print Looking_for_data_file, Read_csv Staged,
      Print (Loading_rows ?n)]" "remote w0 = remote w"
    by (simp_all add: w0_def)
  show "trace (load_to_supabase api w) =
      trace w @ [Print Looking_for_data_file, Read_csv Staged, Print (Loading_rows ?n)] @
      fst (policy_run api ?n 1 (batches ?df) (remote w)) @ [Print Finished_loading]"
    unfolding load_to_supabase_loop [OF assms(1) cl assms(4)] w0_def [symmetric]
    using run by (simp add: w0)
  show "remote (load_to_supabase api w) = snd (policy_run api ?n 1 (batches ?df) (remote w))"
    unfolding load_to_supabase_loop [OF assms(1) cl assms(4)] w0_def [symmetric]
    using run by (simp add: w0)
qed


text \<open>
  C1. On a run that reaches the batch loop (the staged file, both settings and the
  required columns are there), what the loader does to the outside is the retry policy
  applied to its batches in order, and the store ends in the state the policy leaves: a
  batch is attempted once more after a failure, from the first attempt up to three
  attempts in all, with a wait of 2 after the first failure and of 4 after the second;
  after the third failure the batch is skipped; and the next batch follows whatever way
  the batch before it ended.
\<close>

theorem retry_policy:
  assumes "staged_csv w = Some df" "\<not> falsy (SUPABASE_URL w)" "\<not> falsy (SUPABASE_KEY w)"
    "set required_cols \<subseteq> set (columns df)"
  shows "trace (load_to_supabase api w) =
      trace w @ [Print Looking_for_data_file, Read_csv Staged,
                 Print (Loading_rows (length (records df)))] @
      fst (policy_run api (length (records df)) 1
        (batches (select_columns required_cols df)) (remote w)) @
      [Print Finished_loading] \<and>
    remote (load_to_supabase api w) =
      snd (policy_run api (length (records df)) 1
        (batches (select_columns required_cols df)) (remote w))"
  using load_to_supabase_policy [OF assms] by (rule conjI)

lemma staged_example_batches:
  "batches (select_columns required_cols (staged_example 450)) =
     [\<lparr>columns = required_cols, records = replicate 200 (\<lambda>c. Str c)\<rparr>,
      \<lparr>columns = required_cols, records = replicate 200 (\<lambda>c. Str c)\<rparr>,
      \<lparr>columns = required_cols, records = replicate 50 (\<lambda>c. Str c)\<rparr>]"
  by (simp add: batches_def staged_example_def select_columns_def batch_offsets_450 iloc_def
      BATCH_SIZE_def)

lemma example_world_450:
  "staged_csv (example_world None (Some (staged_example 450))) = Some (staged_example 450)"
  "\<not> falsy (SUPABASE_URL (example_world None (Some (staged_example 450))))"
  "\<not> falsy (SUPABASE_KEY (example_world None (Some (staged_example 450))))"
  "set required_cols \<subseteq> set (columns (staged_example 450))"
  "trace (example_world None (Some (staged_example 450))) = []"
  "remote (example_world None (Some (staged_example 450))) = \<lparr>table_rows = [], calls = 0\<rparr>"
  "length (records (staged_example 450)) = 450"
  by (simp_all add: example_world_def falsy_def staged_example_def)

theorem retry_policy_witness:
  "sleeps (trace (load_to_supabase (scripted_store [1, 2, 3])
     (example_world None (Some (staged_example 450))))) = [2, 4] \<and>
   batch_outcomes (trace (load_to_supabase (scripted_store [1, 2, 3])
     (example_world None (Some (staged_example 450))))) = [(1, True), (2, False), (3, True)] \<and>
   map length (insert_calls (trace (load_to_supabase (scripted_store [1, 2, 3])
     (example_world None (Some (staged_example 450)))))) = [200, 200, 200, 200, 50] \<and>
   length (table_rows (remote (load_to_supabase (scripted_store [1, 2, 3])
     (example_world None (Some (staged_example 450)))))) = 250"
  using retry_policy [OF example_world_450(1-4), of "scripted_store [1, 2, 3]"]
  by (simp add: example_world_450 staged_example_batches policy_batch_def Let_def
      scripted_store_def insert_failed_def falsy_def where_notnull_def to_dict_records_def
      insert_calls_append sleeps_append batch_outcomes_append BATCH_SIZE_def)

lemma load_to_supabase_sends:
  assumes "staged_csv w = Some df" "\<not> falsy (SUPABASE_URL w)" "\<not> falsy (SUPABASE_KEY w)"
    "set required_cols \<subseteq> set (columns df)"
  shows "\<exists>new ks. trace (load_to_supabase api w) = trace w @ new \<and>
    length ks = length (batches (select_columns required_cols df)) \<and>
    (\<forall>k \<in> set ks. 1 \<le> k \<and> k \<le> 3) \<and>
    insert_calls new =
      concat (map (\<lambda>(k, b). replicate k (to_dict_records (where_notnull b)))
        (zip ks (batches (select_columns required_cols df))))"
proof -
  let ?n = "length (records df)"
  let ?df = "select_columns required_cols df"
  obtain cl where cl: "get_supabase_client w = Inr cl"
    using assms(2,3) get_supabase_client_cases [of w] by auto
  define w0 where "w0 = say (Loading_rows ?n)
      (emit (Read_csv Staged) (say Looking_for_data_file w))"
  obtain new ks where run:
    "trace (load_batches api ?df ?n (batch_offsets 0 ?n) w0) = trace w0 @ new"
    "length ks = length (batch_offsets 0 ?n)" "\<forall>k \<in> set ks. 1 \<le> k \<and> k \<le> 3"
    "insert_calls new =
       concat (map (\<lambda>(k, i). replicate k
         (to_dict_records (where_notnull (iloc ?df i (i + BATCH_SIZE)))))
         (zip ks (batch_offsets 0 ?n)))"
    using load_batches_trace [of api ?df ?n "batch_offsets 0 ?n" w0] by blast
  let ?new = "[Print Looking_for_data_file, Read_csv Staged, Print (Loading_rows ?n)] @ new @
      [Print Finished_loading]"
  have tr: "trace (load_to_supabase api w) = trace w @ ?new"
    unfolding load_to_supabase_loop [OF assms(1) cl assms(4)] w0_def [symmetric]
    by (simp add: run(1)) (simp add: w0_def)
  have calls: "insert_calls ?new = insert_calls new"
    by (simp add: insert_calls_append)
  have pay: "insert_calls ?new =
      concat (map (\<lambda>(k, b). replicate k (to_dict_records (where_notnull b)))
        (zip ks (batches ?df)))"
    unfolding calls run(4)
    by (simp add: batches_def zip_map2 case_prod_unfold select_columns_def comp_def)
  have len: "length ks = length (batches ?df)"
    using run(2) by (simp add: batches_def select_columns_def)
  show ?thesis
    using tr len run(3) pay by blast
qed

text \<open>
  C2. On a run that reaches the batch loop, the insert calls of the loader carry the
  slices of the staged rows, in order, each slice between one and three times (its
  attempts). The slices put together are the staged rows again, each slice has between 1
  and 200 rows, and there are \<open>\<lceil>n / 200\<rceil>\<close> of them; for 450 rows they have 200, 200
  and 50 rows.
\<close>

theorem loader_batches:
  assumes "staged_csv w = Some df" "\<not> falsy (SUPABASE_URL w)" "\<not> falsy (SUPABASE_KEY w)"
    "set required_cols \<subseteq> set (columns df)"
  shows "(\<exists>new ks. trace (load_to_supabase api w) = trace w @ new \<and>
      length ks = length (batches (select_columns required_cols df)) \<and>
      (\<forall>k \<in> set ks. 1 \<le> k \<and> k \<le> 3) \<and>
      insert_calls new =
        concat (map (\<lambda>(k, b). replicate k (to_dict_records (where_notnull b)))
          (zip ks (batches (select_columns required_cols df))))) \<and>
    concat (map records (batches (select_columns required_cols df))) = records df \<and>
    (\<forall>b \<in> set (batches (select_columns required_cols df)).
       1 \<le> length (records b) \<and> length (records b) \<le> 200) \<and>
    length (batches (select_columns required_cols df)) =
      nat \<lceil>real (length (records df)) / 200\<rceil> \<and>
    (length (records df) = 450 \<longrightarrow>
       map (\<lambda>b. length (records b)) (batches (select_columns required_cols df)) = [200, 200, 50])"
  using load_to_supabase_sends [OF assms, of api]
    batches_shape [of "select_columns required_cols df"]
  by (simp add: select_columns_def)

theorem loader_batches_witness:
  "map (\<lambda>b. length (records b))
     (batches (select_columns required_cols (staged_example 450))) = [200, 200, 50] \<and>
   length (batches (select_columns required_cols (staged_example 450))) = 3 \<and>
   map length (insert_calls (trace (load_to_supabase (scripted_store [])
     (example_world None (Some (staged_example 450)))))) = [200, 200, 50]"
proof -
  have sent: "map length (insert_calls (trace (load_to_supabase (scripted_store [])
     (example_world None (Some (staged_example 450)))))) = [200, 200, 50]"
    using load_to_supabase_policy(1) [OF example_world_450(1-4), of "scripted_store []"]
    by (simp add: example_world_450 staged_example_batches policy_batch_def Let_def
      scripted_store_def insert_failed_def falsy_def where_notnull_def to_dict_records_def
      insert_calls_append BATCH_SIZE_def)
  from loader_batches [OF example_world_450(1-4), of "scripted_store []"] sent
  show ?thesis
    by (simp add: example_world_450 ceil_450)
qed

section \<open>Properties of the transformer\<close>

lemma and_then_Inr: "and_then m f = Inr y \<longleftrightarrow> (\<exists>x. m = Inr x \<and> f x = Inr y)"
  by (cases m) (simp_all add: and_then_def)

lemma setitem_map:
  "setitem name (map g (records df)) df =
     df\<lparr>columns := (if name \<in> set (columns df) then columns df else columns df @ [name]),
        records := map (\<lambda>r. r(name := g r)) (records df)\<rparr>"
  by (simp add: setitem_def zip_map2 zip_same_conv_map comp_def)

lemma cut_cell_tenure:
  "cut_cell tenure_bins tenure_labels (Num t) =
     (if t < - 1 / 10 then NA
      else if t \<le> 12 then Str ''New''
      else if t \<le> 36 then Str ''Regular''
      else if t \<le> 60 then Str ''Loyal''
      else Str ''Champion'')"
  by (simp add: cut_cell_def tenure_bins_def tenure_labels_def searchsorted_left_def Let_def)

lemma cut_cell_missing [simp]:
  "cut_cell bins labels NA = NA" "cut_cell bins labels (Str t) = NA"
  by (simp_all add: cut_cell_def)

lemma add_tenure_group_Inr:
  assumes "add_tenure_group df = Inr out"
  shows "''tenure'' \<in> set (columns df)" "\<not> is_object (series ''tenure'' df)"
    "columns out = (if ''tenure_group'' \<in> set (columns df) then columns df
                    else columns df @ [''tenure_group''])"
    "records out = map (\<lambda>r. r(''tenure_group'' := cut_cell tenure_bins tenure_labels (r ''tenure'')))
       (records df)"
  using assms
  by (auto simp: add_tenure_group_def and_then_Inr getitem_def cut_def series_def setitem_map
      comp_def split: if_splits)

lemma add_monthly_charge_segment_Inr:
  assumes "add_monthly_charge_segment df = Inr out"
  shows "''MonthlyCharges'' \<in> set (columns df)" "\<not> is_object (series ''MonthlyCharges'' df)"
    "columns out = (if ''monthly_charge_segment'' \<in> set (columns df) then columns df
                    else columns df @ [''monthly_charge_segment''])"
    "records out = map (\<lambda>r. r(''monthly_charge_segment'' := charge_segment (r ''MonthlyCharges'')))
       (records df)"
  using assms
  by (auto simp: add_monthly_charge_segment_def and_then_Inr getitem_def charge_segments_def
      series_def setitem_map comp_def split: if_splits)

lemma fillna_map_dict_internet:
  "fillna (Num 0) (map_dict internet_codes s) = map internet_flag s"
  by (auto simp: fillna_def map_dict_def internet_codes_def internet_flag_def
      split: cell.splits)

lemma map_dict_contract: "map_dict contract_codes s = map contract_code s"
  by (auto simp: map_dict_def contract_codes_def contract_code_def split: cell.splits)

lemma add_has_internet_service_Inr:
  assumes "add_has_internet_service df = Inr out"
  shows "''InternetService'' \<in> set (columns df)"
    "columns out = (if ''has_internet_service'' \<in> set (columns df) then columns df
                    else columns df @ [''has_internet_service''])"
    "records out = map (\<lambda>r. r(''has_internet_service'' := internet_flag (r ''InternetService'')))
       (records df)"
  using assms
  by (auto simp: add_has_internet_service_def and_then_Inr getitem_def fillna_map_dict_internet
      series_def setitem_map comp_def split: if_splits)

lemma add_is_multi_line_user_Inr:
  assumes "add_is_multi_line_user df = Inr out"
  shows "''MultipleLines'' \<in> set (columns df)"
    "columns out = (if ''is_multi_line_user'' \<in> set (columns df) then columns df
                    else columns df @ [''is_multi_line_user''])"
    "records out = map (\<lambda>r. r(''is_multi_line_user'' :=
        (if r ''MultipleLines'' = Str ''Yes'' then Num 1 else Num 0))) (records df)"
  using assms
  by (auto simp: add_is_multi_line_user_def and_then_Inr getitem_def
      series_def setitem_map comp_def split: if_splits)

lemma add_contract_type_code_Inr:
  assumes "add_contract_type_code df = Inr out"
  shows "''Contract'' \<in> set (columns df)"
    "columns out = (if ''contract_type_code'' \<in> set (columns df) then columns df
                    else columns df @ [''contract_type_code''])"
    "records out = map (\<lambda>r. r(''contract_type_code'' := contract_code (r ''Contract'')))
       (records df)"
  using assms
  by (auto simp: add_contract_type_code_def and_then_Inr getitem_def map_dict_contract
      series_def setitem_map comp_def split: if_splits)


lemma add_features_Inr:
  assumes "add_features df = Inr out"
  shows "records out =
      map (\<lambda>r. r(''tenure_group'' := cut_cell tenure_bins tenure_labels (r ''tenure''),
               ''monthly_charge_segment'' := charge_segment (r ''MonthlyCharges''),
               ''has_internet_service'' := internet_flag (r ''InternetService''),
               ''is_multi_line_user'' := (if r ''MultipleLines'' = Str ''Yes'' then Num 1 else Num 0),
               ''contract_type_code'' := contract_code (r ''Contract'')))
        (records df)"
    and "set (columns out) =
      (set (columns df) - {''customerID'', ''gender''}) \<union>
      {''tenure_group'', ''monthly_charge_segment'', ''has_internet_service'',
       ''is_multi_line_user'', ''contract_type_code''}"
    and "{''tenure'', ''MonthlyCharges'', ''InternetService'', ''MultipleLines'', ''Contract''}
      \<subseteq> set (columns df)"
    and "\<not> is_object (series ''tenure'' df)" and "\<not> is_object (series ''MonthlyCharges'' df)"
proof -
  from assms obtain df1 df2 df3 df4 df5 where
    s1: "add_tenure_group df = Inr df1" and
    s2: "add_monthly_charge_segment df1 = Inr df2" and
    s3: "add_has_internet_service df2 = Inr df3" and
    s4: "add_is_multi_line_user df3 = Inr df4" and
    s5: "add_contract_type_code df4 = Inr df5" and
    out: "out = drop_columns [''customerID'', ''gender''] df5"
    by (auto simp: add_features_def and_then_Inr)
  note r1 = add_tenure_group_Inr [OF s1]
  note r2 = add_monthly_charge_segment_Inr [OF s2]
  note r3 = add_has_internet_service_Inr [OF s3]
  note r4 = add_is_multi_line_user_Inr [OF s4]
  note r5 = add_contract_type_code_Inr [OF s5]
  have c1: "set (columns df1) = insert ''tenure_group'' (set (columns df))"
    using r1(3) by auto
  have c2: "set (columns df2) = insert ''monthly_charge_segment'' (set (columns df1))"
    using r2(3) by auto
  have c3: "set (columns df3) = insert ''has_internet_service'' (set (columns df2))"
    using r3(2) by auto
  have c4: "set (columns df4) = insert ''is_multi_line_user'' (set (columns df3))"
    using r4(2) by auto
  have c5: "set (columns df5) = insert ''contract_type_code'' (set (columns df4))"
    using r5(2) by auto
  show "records out =
      map (\<lambda>r. r(''tenure_group'' := cut_cell tenure_bins tenure_labels (r ''tenure''),
               ''monthly_charge_segment'' := charge_segment (r ''MonthlyCharges''),
               ''has_internet_service'' := internet_flag (r ''InternetService''),
               ''is_multi_line_user'' := (if r ''MultipleLines'' = Str ''Yes'' then Num 1 else Num 0),
               ''contract_type_code'' := contract_code (r ''Contract'')))
        (records df)"
    by (simp add: out drop_columns_def r5(3) r4(3) r3(3) r2(4) r1(4) comp_def)
  show "set (columns out) =
      (set (columns df) - {''customerID'', ''gender''}) \<union>
      {''tenure_group'', ''monthly_charge_segment'', ''has_internet_service'',
       ''is_multi_line_user'', ''contract_type_code''}"
    unfolding out drop_columns_def by (simp add: c5 c4 c3 c2 c1) auto
  show "{''tenure'', ''MonthlyCharges'', ''InternetService'', ''MultipleLines'', ''Contract''}
      \<subseteq> set (columns df)"
    using r1(1) r2(1) r3(1) r4(1) r5(1) by (simp add: c4 c3 c2 c1)
  show "\<not> is_object (series ''tenure'' df)" by (rule r1(2))
  show "\<not> is_object (series ''MonthlyCharges'' df)"
    using r2(2) by (simp add: series_def r1(4) comp_def)
qed


lemma length_series [simp]: "length (series c df) = length (records df)"
  by (simp add: series_def)

lemma series_setitem:
  "length vals = length (records df) \<Longrightarrow>
   series c (setitem name vals df) = (if c = name then vals else series c df)"
proof -
  assume len: "length vals = length (records df)"
  have fst: "map fst (zip (records df) vals) = records df"
    using len by (simp add: map_fst_zip)
  have snd: "map snd (zip (records df) vals) = vals"
    using len by (simp add: map_snd_zip)
  have "series name (setitem name vals df) = map snd (zip (records df) vals)"
    by (simp add: series_def setitem_def comp_def case_prod_unfold)
  moreover have "series c (setitem name vals df) = map (\<lambda>r. r c) (map fst (zip (records df) vals))"
    if "c \<noteq> name"
    using that by (simp add: series_def setitem_def comp_def case_prod_unfold)
  ultimately show ?thesis
    by (simp add: fst snd series_def)
qed

lemma setitem_shape:
  "length vals = length (records df) \<Longrightarrow> length (records (setitem name vals df)) = length (records df)"
  "columns (setitem name vals df) =
     (if name \<in> set (columns df) then columns df else columns df @ [name])"
  by (simp_all add: setitem_def)

lemma length_fillna [simp]: "length (fillna v s) = length s"
  by (simp add: fillna_def)

lemma length_to_numeric [simp]: "length (to_numeric parse s) = length s"
  by (simp add: to_numeric_def)

lemma is_object_to_numeric [simp]: "\<not> is_object (to_numeric parse s)"
  by (induction s) (auto simp: is_object_def to_numeric_def split: cell.splits option.splits)

lemma sort_eq_Nil [simp]: "sort xs = [] \<longleftrightarrow> xs = []"
  using length_sort [of "\<lambda>x. x" xs] by (metis length_0_conv)

lemma median_Inr:
  assumes "median fmean s = Inr m"
  shows "\<not> is_object s" "\<not> is_text m" "numbers s \<noteq> [] \<Longrightarrow> \<exists>x. m = Num x"
  using assms by (auto simp: median_def Let_def split: if_splits)

lemma is_object_fillna:
  "\<not> is_object s \<Longrightarrow> \<not> is_text v \<Longrightarrow> \<not> is_object (fillna v s)"
  by (induction s) (auto simp: is_object_def fillna_def)

lemma fill_median_Inr:
  assumes "fill_median fmean col df = Inr out"
  shows "columns out = columns df"
    and "length (records out) = length (records df)"
    and "col \<in> set (columns df) \<Longrightarrow>
           \<exists>m. median fmean (series col df) = Inr m \<and> series col out = fillna m (series col df)"
    and "c \<noteq> col \<Longrightarrow> series c out = series c df"
  using assms
  by (auto simp: fill_median_def and_then_Inr series_setitem setitem_shape split: if_splits)

lemma clean_numeric_Inr:
  assumes "clean_numeric fmean parse df = Inr out"
  shows "columns out = columns df"
    and "length (records out) = length (records df)"
    and "''TotalCharges'' \<in> set (columns df)"
    and "\<exists>m. median fmean (to_numeric parse (series ''TotalCharges'' df)) = Inr m \<and>
           series ''TotalCharges'' out = fillna m (to_numeric parse (series ''TotalCharges'' df))"
    and "''tenure'' \<in> set (columns df) \<Longrightarrow>
           \<exists>m. median fmean (series ''tenure'' df) = Inr m \<and>
             series ''tenure'' out = fillna m (series ''tenure'' df)"
    and "''MonthlyCharges'' \<in> set (columns df) \<Longrightarrow>
           \<exists>m. median fmean (series ''MonthlyCharges'' df) = Inr m \<and>
             series ''MonthlyCharges'' out = fillna m (series ''MonthlyCharges'' df)"
    and "c \<notin> set numeric_cols \<Longrightarrow> series c out = series c df"
proof -
  define df0 where "df0 = setitem ''TotalCharges'' (to_numeric parse (series ''TotalCharges'' df)) df"
  from assms obtain d1 d2 where tc: "''TotalCharges'' \<in> set (columns df)"
    and f1: "fill_median fmean ''tenure'' df0 = Inr d1"
    and f2: "fill_median fmean ''MonthlyCharges'' d1 = Inr d2"
    and f3: "fill_median fmean ''TotalCharges'' d2 = Inr out"
    by (auto simp: clean_numeric_def and_then_Inr getitem_def numeric_cols_def df0_def
        split: if_splits)
  have cols0: "columns df0 = columns df"
    using tc by (simp add: df0_def setitem_shape)
  have len0: "length (records df0) = length (records df)"
    by (simp add: df0_def setitem_shape)
  have ser0: "series c df0 = (if c = ''TotalCharges'' then to_numeric parse (series ''TotalCharges'' df)
      else series c df)" for c
    by (simp add: df0_def series_setitem)
  note r1 = fill_median_Inr [OF f1]
  note r2 = fill_median_Inr [OF f2]
  note r3 = fill_median_Inr [OF f3]
  show "columns out = columns df"
    by (simp add: r3(1) r2(1) r1(1) cols0)
  show "length (records out) = length (records df)"
    by (simp add: r3(2) r2(2) r1(2) len0)
  show "''TotalCharges'' \<in> set (columns df)" by (rule tc)
  have "series ''TotalCharges'' d2 = to_numeric parse (series ''TotalCharges'' df)"
    by (simp add: r2(4) r1(4) ser0)
  moreover have "''TotalCharges'' \<in> set (columns d2)"
    by (simp add: r2(1) r1(1) cols0 tc)
  ultimately show "\<exists>m. median fmean (to_numeric parse (series ''TotalCharges'' df)) = Inr m \<and>
           series ''TotalCharges'' out = fillna m (to_numeric parse (series ''TotalCharges'' df))"
    using r3(3) by simp
  show "\<exists>m. median fmean (series ''tenure'' df) = Inr m \<and>
             series ''tenure'' out = fillna m (series ''tenure'' df)"
    if "''tenure'' \<in> set (columns df)"
    using r1(3) that by (simp add: cols0 ser0 r3(4) r2(4))
  show "\<exists>m. median fmean (series ''MonthlyCharges'' df) = Inr m \<and>
             series ''MonthlyCharges'' out = fillna m (series ''MonthlyCharges'' df)"
    if "''MonthlyCharges'' \<in> set (columns df)"
    using r2(3) that by (simp add: cols0 r1(1) r1(4) ser0 r3(4))
  show "series c out = series c df" if "c \<notin> set numeric_cols"
    using that by (simp add: numeric_cols_def r3(4) r2(4) r1(4) ser0)
qed

lemma fill_unknown_shape:
  "columns (fill_unknown df) = columns df"
  "length (records (fill_unknown df)) = length (records df)"
  by (simp_all add: fill_unknown_def Let_def)

lemma series_fill_unknown:
  "series c (fill_unknown df) =
     (if c \<in> set (columns df) \<and> is_object (series c df)
      then fillna (Str ''Unknown'') (series c df) else series c df)"
  by (auto simp: fill_unknown_def Let_def series_def fillna_def)


lemma transform_frame_Inr:
  assumes "transform_frame fmean parse df = Inr out"
  obtains cleaned where "clean_numeric fmean parse df = Inr cleaned"
    "add_features (fill_unknown cleaned) = Inr out"
  using assms by (auto simp: transform_frame_def and_then_Inr)

lemma series_nth: "j < length (records df) \<Longrightarrow> series c df ! j = (records df ! j) c"
  by (simp add: series_def)

lemma features_series:
  assumes "add_features df = Inr out"
  shows "series ''tenure_group'' out = map (cut_cell tenure_bins tenure_labels) (series ''tenure'' df)"
    and "series ''monthly_charge_segment'' out = map charge_segment (series ''MonthlyCharges'' df)"
    and "series ''has_internet_service'' out = map internet_flag (series ''InternetService'' df)"
    and "series ''is_multi_line_user'' out =
           map (\<lambda>c. if c = Str ''Yes'' then Num 1 else Num 0) (series ''MultipleLines'' df)"
    and "series ''contract_type_code'' out = map contract_code (series ''Contract'' df)"
    and "c \<notin> {''tenure_group'', ''monthly_charge_segment'', ''has_internet_service'',
             ''is_multi_line_user'', ''contract_type_code''} \<Longrightarrow> series c out = series c df"
    and "length (records out) = length (records df)"
  by (simp_all add: series_def add_features_Inr(1) [OF assms] comp_def)

lemma transform_numeric_series:
  assumes "transform_frame fmean parse df = Inr out" and "col \<in> set numeric_cols"
  shows "\<exists>m. median fmean (if col = ''TotalCharges'' then to_numeric parse (series col df)
                       else series col df) = Inr m \<and>
             series col out = fillna m (if col = ''TotalCharges'' then to_numeric parse (series col df)
                                        else series col df)"
proof -
  from assms(1) obtain cleaned where cl: "clean_numeric fmean parse df = Inr cleaned"
    and ft: "add_features (fill_unknown cleaned) = Inr out"
    by (rule transform_frame_Inr)
  note c = clean_numeric_Inr [OF cl]
  note f = add_features_Inr [OF ft]
  from f(3) have present: "''tenure'' \<in> set (columns df)" "''MonthlyCharges'' \<in> set (columns df)"
    by (simp_all add: fill_unknown_shape c(1))
  let ?before = "if col = ''TotalCharges'' then to_numeric parse (series col df) else series col df"
  from assms(2) c(4) c(5) [OF present(1)] c(6) [OF present(2)]
  obtain m where m: "median fmean ?before = Inr m" "series col cleaned = fillna m ?before"
    by (auto simp: numeric_cols_def)
  have "\<not> is_object (series col cleaned)"
    unfolding m(2) using median_Inr(1,2) [OF m(1)] by (rule is_object_fillna)
  then have "series col (fill_unknown cleaned) = series col cleaned"
    by (simp add: series_fill_unknown)
  moreover have "series col out = series col (fill_unknown cleaned)"
    using assms(2) by (intro features_series(6) [OF ft]) (auto simp: numeric_cols_def)
  ultimately show ?thesis
    using m by auto
qed

text \<open>
  C3, as the code has it. In the transformer's result, the \<open>tenure_group\<close> of a record
  follows from its tenure after imputation: \<open>New\<close> from -0.1 up to 12, \<open>Regular\<close>
  above 12 up to 36, \<open>Loyal\<close> above 36 up to 60, \<open>Champion\<close> above 60. The lowest
  bin ends at -0.1: a tenure below it, or a missing tenure, has no group. At the stated
  boundaries: 12 New, 13 Regular, 36 Regular, 37 Loyal, 60 Loyal, 61 Champion.
\<close>

theorem tenure_group_buckets:
  assumes "transform_frame fmean parse df = Inr out" and "j < length (records out)"
  shows "(records out ! j) ''tenure_group'' =
     (case (records out ! j) ''tenure'' of
        Num t \<Rightarrow>
          (if t < - 1 / 10 then NA
           else if t \<le> 12 then Str ''New''
           else if t \<le> 36 then Str ''Regular''
           else if t \<le> 60 then Str ''Loyal''
           else Str ''Champion'')
      | Str s \<Rightarrow> NA
      | NA \<Rightarrow> NA) \<and>
   map (cut_cell tenure_bins tenure_labels) [Num 12, Num 13, Num 36, Num 37, Num 60, Num 61] =
     [Str ''New'', Str ''Regular'', Str ''Regular'', Str ''Loyal'', Str ''Loyal'', Str ''Champion'']"
proof
  from assms(1) obtain cleaned where ft: "add_features (fill_unknown cleaned) = Inr out"
    by (rule transform_frame_Inr)
  note s = features_series [OF ft]
  have len: "j < length (records (fill_unknown cleaned))"
    using assms(2) s(7) by simp
  have "(records out ! j) ''tenure_group'' = series ''tenure_group'' out ! j"
    using assms(2) by (simp add: series_nth)
  also have "\<dots> = cut_cell tenure_bins tenure_labels (series ''tenure'' (fill_unknown cleaned) ! j)"
    using len by (simp add: s(1))
  also have "series ''tenure'' (fill_unknown cleaned) = series ''tenure'' out"
    by (rule s(6) [symmetric]) simp
  also have "series ''tenure'' out ! j = (records out ! j) ''tenure''"
    using assms(2) by (simp add: series_nth)
  finally show "(records out ! j) ''tenure_group'' =
     (case (records out ! j) ''tenure'' of
        Num t \<Rightarrow>
          (if t < - 1 / 10 then NA
           else if t \<le> 12 then Str ''New''
           else if t \<le> 36 then Str ''Regular''
           else if t \<le> 60 then Str ''Loyal''
           else Str ''Champion'')
      | Str s \<Rightarrow> NA
      | NA \<Rightarrow> NA)"
    by (cases "(records out ! j) ''tenure''") (simp_all add: cut_cell_tenure)
next
  show "map (cut_cell tenure_bins tenure_labels) [Num 12, Num 13, Num 36, Num 37, Num 60, Num 61] =
     [Str ''New'', Str ''Regular'', Str ''Regular'', Str ''Loyal'', Str ''Loyal'', Str ''Champion'']"
    by (simp add: cut_cell_tenure)
qed

text \<open>
  C8. The transformer's result has as many rows as the raw input, and its columns are
  the input's without \<open>customerID\<close> and \<open>gender\<close>, with the five derived ones.
\<close>

theorem transform_shape:
  assumes "transform_frame fmean parse df = Inr out"
  shows "length (records out) = length (records df) \<and>
     set (columns out) =
       (set (columns df) - {''customerID'', ''gender''}) \<union>
       {''tenure_group'', ''monthly_charge_segment'', ''has_internet_service'',
        ''is_multi_line_user'', ''contract_type_code''}"
proof -
  from assms obtain cleaned where cl: "clean_numeric fmean parse df = Inr cleaned"
    and ft: "add_features (fill_unknown cleaned) = Inr out"
    by (rule transform_frame_Inr)
  note c = clean_numeric_Inr [OF cl]
  note f = add_features_Inr [OF ft]
  have "length (records out) = length (records df)"
    by (simp add: features_series(7) [OF ft] fill_unknown_shape c(2))
  moreover have "set (columns out) =
       (set (columns df) - {''customerID'', ''gender''}) \<union>
       {''tenure_group'', ''monthly_charge_segment'', ''has_internet_service'',
        ''is_multi_line_user'', ''contract_type_code''}"
    using f(2) by (simp add: fill_unknown_shape c(1))
  ultimately show ?thesis ..
qed


lemma fill_median_succeeds:
  assumes "col \<in> set (columns df) \<Longrightarrow> \<not> is_object (series col df)"
  shows "\<exists>out. fill_median fmean col df = Inr out"
  using assms by (simp add: fill_median_def median_def and_then_def Let_def)

lemma clean_numeric_succeeds:
  assumes "''TotalCharges'' \<in> set (columns df)"
    and "\<not> is_object (series ''tenure'' df)" and "\<not> is_object (series ''MonthlyCharges'' df)"
  shows "\<exists>out. clean_numeric fmean parse df = Inr out"
proof -
  define df0 where "df0 = setitem ''TotalCharges'' (to_numeric parse (series ''TotalCharges'' df)) df"
  have ser0: "series c df0 = (if c = ''TotalCharges'' then to_numeric parse (series ''TotalCharges'' df)
      else series c df)" for c
    by (simp add: df0_def series_setitem)
  obtain d1 where f1: "fill_median fmean ''tenure'' df0 = Inr d1"
    using fill_median_succeeds [of "''tenure''" df0] assms(2) by (auto simp: ser0)
  have "\<not> is_object (series ''MonthlyCharges'' d1)"
    using assms(3) by (simp add: fill_median_Inr(4) [OF f1] ser0)
  then obtain d2 where f2: "fill_median fmean ''MonthlyCharges'' d1 = Inr d2"
    using fill_median_succeeds [of "''MonthlyCharges''" d1] by auto
  have "\<not> is_object (series ''TotalCharges'' d2)"
    by (simp add: fill_median_Inr(4) [OF f2] fill_median_Inr(4) [OF f1] ser0)
  then obtain d3 where f3: "fill_median fmean ''TotalCharges'' d2 = Inr d3"
    using fill_median_succeeds [of "''TotalCharges''" d2] by auto
  have "clean_numeric fmean parse df = Inr d3"
    using assms(1) f1 f2 f3
    by (simp add: clean_numeric_def getitem_def and_then_def numeric_cols_def df0_def)
  then show ?thesis ..
qed

lemma add_features_succeeds:
  assumes "{''tenure'', ''MonthlyCharges'', ''InternetService'', ''MultipleLines'', ''Contract''}
      \<subseteq> set (columns df)"
    and "\<not> is_object (series ''tenure'' df)" and "\<not> is_object (series ''MonthlyCharges'' df)"
  shows "\<exists>out. add_features df = Inr out"
proof -
  obtain df1 where s1: "add_tenure_group df = Inr df1"
    using assms(1,2) by (simp add: add_tenure_group_def getitem_def cut_def and_then_def)
  note r1 = add_tenure_group_Inr [OF s1]
  have "''MonthlyCharges'' \<in> set (columns df1)" "\<not> is_object (series ''MonthlyCharges'' df1)"
    using assms(1,3) by (simp_all add: r1(3) series_def r1(4) comp_def)
  then obtain df2 where s2: "add_monthly_charge_segment df1 = Inr df2"
    by (simp add: add_monthly_charge_segment_def getitem_def charge_segments_def and_then_def)
  note r2 = add_monthly_charge_segment_Inr [OF s2]
  have "''InternetService'' \<in> set (columns df2)"
    using assms(1) by (simp add: r2(3) r1(3))
  then obtain df3 where s3: "add_has_internet_service df2 = Inr df3"
    by (simp add: add_has_internet_service_def getitem_def and_then_def)
  note r3 = add_has_internet_service_Inr [OF s3]
  have "''MultipleLines'' \<in> set (columns df3)"
    using assms(1) by (simp add: r3(2) r2(3) r1(3))
  then obtain df4 where s4: "add_is_multi_line_user df3 = Inr df4"
    by (simp add: add_is_multi_line_user_def getitem_def and_then_def)
  note r4 = add_is_multi_line_user_Inr [OF s4]
  have "''Contract'' \<in> set (columns df4)"
    using assms(1) by (simp add: r4(2) r3(2) r2(3) r1(3))
  then obtain df5 where s5: "add_contract_type_code df4 = Inr df5"
    by (simp add: add_contract_type_code_def getitem_def and_then_def)
  show ?thesis
    by (simp add: add_features_def and_then_def s1 s2 s3 s4 s5)
qed

text \<open>
  The transformer returns a frame whenever the six columns it reads are there and the
  tenure and the monthly charge are columns of numbers.
\<close>

lemma transform_frame_succeeds:
  assumes "{''TotalCharges'', ''tenure'', ''MonthlyCharges'', ''InternetService'',
            ''MultipleLines'', ''Contract''} \<subseteq> set (columns df)"
    and "\<not> is_object (series ''tenure'' df)" and "\<not> is_object (series ''MonthlyCharges'' df)"
  shows "\<exists>out. transform_frame fmean parse df = Inr out"
proof -
  obtain cleaned where cl: "clean_numeric fmean parse df = Inr cleaned"
    using clean_numeric_succeeds [where df = df and parse = parse and fmean = fmean] assms by auto
  note c = clean_numeric_Inr [OF cl]
  have present: "''tenure'' \<in> set (columns df)" "''MonthlyCharges'' \<in> set (columns df)"
    using assms(1) by simp_all
  from c(5) [OF present(1)] obtain mt where mt: "median fmean (series ''tenure'' df) = Inr mt"
    "series ''tenure'' cleaned = fillna mt (series ''tenure'' df)" by blast
  from c(6) [OF present(2)] obtain mc where mc: "median fmean (series ''MonthlyCharges'' df) = Inr mc"
    "series ''MonthlyCharges'' cleaned = fillna mc (series ''MonthlyCharges'' df)" by blast
  have t: "\<not> is_object (series ''tenure'' cleaned)"
    unfolding mt(2) using median_Inr(1,2) [OF mt(1)] by (rule is_object_fillna)
  have m: "\<not> is_object (series ''MonthlyCharges'' cleaned)"
    unfolding mc(2) using median_Inr(1,2) [OF mc(1)] by (rule is_object_fillna)
  have "\<exists>out. add_features (fill_unknown cleaned) = Inr out"
    using assms(1) t m
    by (intro add_features_succeeds) (simp_all add: fill_unknown_shape c(1) series_fill_unknown)
  then show ?thesis
    by (simp add: transform_frame_def and_then_def cl)
qed

lemma raw_example_series:
  "series ''tenure'' raw_example = [Num 12, NA, Num (- 1), Num 61]"
  "series ''MonthlyCharges'' raw_example = [Num (597 / 20), Num 70, NA, Num 80]"
  "series ''TotalCharges'' raw_example = [Str '' '', Str ''100.5'', Str ''20'', Str ''300'']"
  by (simp_all add: series_def raw_example_def raw_row_def row_def)

lemma raw_example_succeeds: "\<exists>out. transform_frame exact_mean parse_example raw_example = Inr out"
  by (rule transform_frame_succeeds)
    (simp_all add: raw_example_series is_object_def, simp add: raw_example_def raw_columns_def)


lemma raw_example_result:
  "transform_frame exact_mean parse_example raw_example = Inr (projr (transform_frame exact_mean parse_example raw_example))"
  using raw_example_succeeds by auto


lemma raw_example_shape:
  "columns raw_example = raw_columns" "length (records raw_example) = 4"
  by (simp_all add: raw_example_def)

lemma raw_example_coerced:
  "to_numeric parse_example [Str '' '', Str ''100.5'', Str ''20'', Str ''300''] =
     [NA, Num (201 / 2), Num 20, Num 300]"
  by (simp add: to_numeric_def parse_example_def)

lemma raw_example_medians:
  "median exact_mean [Num 12, NA, Num (- 1), Num 61] = Inr (Num 12)"
  "median exact_mean [Num (597 / 20), Num 70, NA, Num 80] = Inr (Num 70)"
  "median exact_mean [NA, Num (201 / 2), Num 20, Num 300] = Inr (Num (201 / 2))"
  by (simp_all add: median_def is_object_def numbers_def Let_def)

lemma raw_example_numeric:
  "series ''tenure'' (projr (transform_frame exact_mean parse_example raw_example)) =
     [Num 12, Num 12, Num (- 1), Num 61]"
  "series ''MonthlyCharges'' (projr (transform_frame exact_mean parse_example raw_example)) =
     [Num (597 / 20), Num 70, Num 70, Num 80]"
  "series ''TotalCharges'' (projr (transform_frame exact_mean parse_example raw_example)) =
     [Num (201 / 2), Num (201 / 2), Num 20, Num 300]"
  using transform_numeric_series [OF raw_example_result, of "''tenure''"]
    transform_numeric_series [OF raw_example_result, of "''MonthlyCharges''"]
    transform_numeric_series [OF raw_example_result, of "''TotalCharges''"]
  by (auto simp: numeric_cols_def raw_example_series raw_example_coerced raw_example_medians
      fillna_def)

lemma transform_frame_features:
  assumes "transform_frame fmean parse df = Inr out"
  shows "series ''tenure_group'' out = map (cut_cell tenure_bins tenure_labels) (series ''tenure'' out)"
    and "series ''monthly_charge_segment'' out = map charge_segment (series ''MonthlyCharges'' out)"
    and "set (columns out) =
       (set (columns df) - {''customerID'', ''gender''}) \<union>
       {''tenure_group'', ''monthly_charge_segment'', ''has_internet_service'',
        ''is_multi_line_user'', ''contract_type_code''}"
    and "length (records out) = length (records df)"
proof -
  from assms obtain cleaned where cl: "clean_numeric fmean parse df = Inr cleaned"
    and ft: "add_features (fill_unknown cleaned) = Inr out"
    by (rule transform_frame_Inr)
  note c = clean_numeric_Inr [OF cl]
  note s = features_series [OF ft]
  have "series ''tenure'' out = series ''tenure'' (fill_unknown cleaned)"
    by (rule s(6)) simp
  then show "series ''tenure_group'' out =
      map (cut_cell tenure_bins tenure_labels) (series ''tenure'' out)"
    by (simp add: s(1))
  have "series ''MonthlyCharges'' out = series ''MonthlyCharges'' (fill_unknown cleaned)"
    by (rule s(6)) simp
  then show "series ''monthly_charge_segment'' out =
      map charge_segment (series ''MonthlyCharges'' out)"
    by (simp add: s(2))
  show "set (columns out) =
       (set (columns df) - {''customerID'', ''gender''}) \<union>
       {''tenure_group'', ''monthly_charge_segment'', ''has_internet_service'',
        ''is_multi_line_user'', ''contract_type_code''}"
    using add_features_Inr(2) [OF ft] by (simp add: fill_unknown_shape c(1))
  show "length (records out) = length (records df)"
    by (simp add: s(7) fill_unknown_shape c(2))
qed

lemma transformed_column_example:
  assumes "name \<in> set (columns (projr (transform_frame exact_mean parse_example raw_example)))"
  shows "transformed_column name (transform_frame exact_mean parse_example raw_example) =
    Inr (series name (projr (transform_frame exact_mean parse_example raw_example)))"
  using assms raw_example_succeeds
  by (auto simp: transformed_column_def and_then_def getitem_def)

text \<open>
  C3 as the specification states it does not hold: the third customer of the example has
  tenure -1, which is at most 12, and its \<open>tenure_group\<close> is missing, not \<open>New\<close>.
\<close>

theorem tenure_group_negative_counterexample:
  "transformed_column ''tenure'' (transform_frame exact_mean parse_example raw_example) =
     Inr [Num 12, Num 12, Num (- 1), Num 61] \<and>
   transformed_column ''tenure_group'' (transform_frame exact_mean parse_example raw_example) =
     Inr [Str ''New'', Str ''New'', NA, Str ''Champion'']"
proof -
  note f = transform_frame_features [OF raw_example_result]
  have cols: "''tenure'' \<in> set (columns (projr (transform_frame exact_mean parse_example raw_example)))"
    "''tenure_group'' \<in> set (columns (projr (transform_frame exact_mean parse_example raw_example)))"
    by (simp_all add: f(3) raw_example_shape raw_columns_def)
  show ?thesis
    by (simp add: transformed_column_example cols f(1) raw_example_numeric cut_cell_tenure)
qed

theorem tenure_group_buckets_witness:
  "(records (projr (transform_frame exact_mean parse_example raw_example)) ! 2) ''tenure'' = Num (- 1) \<and>
   (records (projr (transform_frame exact_mean parse_example raw_example)) ! 2) ''tenure_group'' = NA \<and>
   (records (projr (transform_frame exact_mean parse_example raw_example)) ! 3) ''tenure'' = Num 61 \<and>
   (records (projr (transform_frame exact_mean parse_example raw_example)) ! 3) ''tenure_group'' =
     Str ''Champion''"
proof -
  let ?out = "projr (transform_frame exact_mean parse_example raw_example)"
  have len: "length (records ?out) = 4"
    using transform_frame_features(4) [OF raw_example_result] by (simp add: raw_example_shape)
  have t2: "(records ?out ! 2) ''tenure'' = Num (- 1)"
    using series_nth [of 2 ?out "''tenure''"] len by (simp add: raw_example_numeric)
  have t3: "(records ?out ! 3) ''tenure'' = Num 61"
    using series_nth [of 3 ?out "''tenure''"] len by (simp add: raw_example_numeric)
  show ?thesis
    using tenure_group_buckets [OF raw_example_result, of 2]
      tenure_group_buckets [OF raw_example_result, of 3] len
    by (simp add: t2 t3)
qed

theorem transform_shape_witness:
  "length (records (projr (transform_frame exact_mean parse_example raw_example))) = 4 \<and>
   set (columns (projr (transform_frame exact_mean parse_example raw_example))) =
     {''tenure'', ''MonthlyCharges'', ''TotalCharges'', ''Churn'', ''InternetService'',
      ''Contract'', ''PaymentMethod'', ''MultipleLines'', ''tenure_group'',
      ''monthly_charge_segment'', ''has_internet_service'', ''is_multi_line_user'',
      ''contract_type_code''}"
  using transform_shape [OF raw_example_result]
  by (auto simp: raw_example_shape raw_columns_def)











lemma transform_data_Inr:
  assumes "transform_data fmean parse w = Inr w'"
  shows "\<exists>raw out. raw_csv w = Some raw \<and> transform_frame fmean parse raw = Inr out \<and>
    staged_csv w' = Some out \<and> raw_csv w' = raw_csv w \<and> remote w' = remote w \<and>
    trace w' = trace w @ [Read_csv Raw, Write_csv Staged, Print Data_transformed]"
  using assms
  by (auto simp: transform_data_def and_then_Inr emit_def say_def split: option.splits)

section \<open>Properties of the validator and of the settings\<close>

lemma summary_append: "summary (t @ u) = summary t @ summary u"
  by (induction t rule: summary.induct) simp_all

lemma check_row_count_no_client:
  assumes "get_supabase_client w = Inl e"
  shows "check_row_count api n w =
    (False, say Row_count_not_validated (say Could_not_get_row_count w))"
  using assms by (simp add: check_row_count_def get_supabase_row_count_def)

lemma row_count_messages_quiet:
  "summary (map Print (row_count_messages reply n)) = []"
  "filter is_mutation (map Print (row_count_messages reply n)) = []"
  "filter is_remote_call (map Print (row_count_messages reply n)) = []"
  by (auto simp: row_count_messages_def split: count_reply.splits option.splits)

lemma check_row_count_client:
  assumes "get_supabase_client w = Inr c"
  shows "fst (check_row_count api n w) = count_matches api w n"
    and "trace (snd (check_row_count api n w)) =
      trace w @ Select_count_call #
        map Print (row_count_messages (fst (api_select_count api (remote w))) n)"
    and "remote (snd (check_row_count api n w)) = snd (api_select_count api (remote w))"
    and "raw_csv (snd (check_row_count api n w)) = raw_csv w"
    and "staged_csv (snd (check_row_count api n w)) = staged_csv w"
  using assms
  by (cases "api_select_count api (remote w)";
      auto simp: check_row_count_def get_supabase_row_count_def count_matches_def
        row_count_messages_def Let_def emit_def say_def
      split: count_reply.splits option.splits)+

lemma check_row_count_run:
  obtains new where
    "fst (check_row_count api n w) = count_matches api w n"
    "trace (snd (check_row_count api n w)) = trace w @ new"
    "summary new = []" "filter is_mutation new = []"
    "raw_csv (snd (check_row_count api n w)) = raw_csv w"
    "staged_csv (snd (check_row_count api n w)) = staged_csv w"
    "filter is_remote_call new = [] \<and> remote (snd (check_row_count api n w)) = remote w \<and>
       get_supabase_client w = Inl ValueError \<or>
     filter is_remote_call new = [Select_count_call] \<and>
       remote (snd (check_row_count api n w)) = snd (api_select_count api (remote w)) \<and>
       get_supabase_client w \<noteq> Inl ValueError"
proof -
  consider (no_client) "get_supabase_client w = Inl ValueError"
    | (client) c where "get_supabase_client w = Inr c"
    using get_supabase_client_cases [of w] by blast
  then show ?thesis
  proof cases
    case no_client
    show ?thesis
      by (rule that [of "[Print Could_not_get_row_count, Print Row_count_not_validated]"])
         (simp_all add: check_row_count_no_client [OF no_client] count_matches_def no_client)
  next
    case client
    note r = check_row_count_client [OF client, of api n]
    show ?thesis
      by (rule that [of "Select_count_call #
            map Print (row_count_messages (fst (api_select_count api (remote w))) n)"])
         (simp_all add: r row_count_messages_quiet client)
  qed
qed


lemma count_matches_say [simp]:
  "count_matches api (say m w) n = count_matches api w n"
  "count_matches api (emit e w) n = count_matches api w n"
  by (simp_all add: count_matches_def split: sum.splits)

lemma validate_run:
  assumes "raw_csv w = Some raw_df" "staged_csv w = Some df"
  obtains mid where
    "trace (validate api w) =
       trace w @
       [Read_csv Raw, Read_csv Staged, Print Starting_validation,
        Print (Check_line 1 (no_missing_numeric df)),
        Print (Check_line 2 (unique_match raw_df df))] @ mid @
       [Print (Check_line 4 (tenure_segments_ok df)),
        Print (Check_line 5 (charge_segments_ok df)),
        Print (Check_line 6 (contract_codes_ok df)), Print Summary_header] @
       map (\<lambda>(name, ok). Print (Summary_line name ok))
         (checks_list raw_df df (count_matches api w (length (records df)))) @
       [Print (if list_all snd (checks_list raw_df df (count_matches api w (length (records df))))
               then All_checks_passed else Some_checks_failed)]"
    "summary mid = []" "filter is_mutation mid = []"
    "raw_csv (validate api w) = raw_csv w" "staged_csv (validate api w) = staged_csv w"
    "filter is_remote_call mid = [] \<and> remote (validate api w) = remote w \<and>
       get_supabase_client w = Inl ValueError \<or>
     filter is_remote_call mid = [Select_count_call] \<and>
       remote (validate api w) = snd (api_select_count api (remote w)) \<and>
       get_supabase_client w \<noteq> Inl ValueError"
proof -
  define w3 where "w3 = say (Check_line 2 (unique_match raw_df df))
      (say (Check_line 1 (no_missing_numeric df))
        (say Starting_validation (emit (Read_csv Staged) (emit (Read_csv Raw) w))))"
  define n where "n = length (records df)"
  obtain mid where mid:
    "fst (check_row_count api n w3) = count_matches api w3 n"
    "trace (snd (check_row_count api n w3)) = trace w3 @ mid"
    "summary mid = []" "filter is_mutation mid = []"
    "raw_csv (snd (check_row_count api n w3)) = raw_csv w3"
    "staged_csv (snd (check_row_count api n w3)) = staged_csv w3"
    "filter is_remote_call mid = [] \<and> remote (snd (check_row_count api n w3)) = remote w3 \<and>
       get_supabase_client w3 = Inl ValueError \<or>
     filter is_remote_call mid = [Select_count_call] \<and>
       remote (snd (check_row_count api n w3)) = snd (api_select_count api (remote w3)) \<and>
       get_supabase_client w3 \<noteq> Inl ValueError"
    by (rule check_row_count_run [of api n w3])
  have ok: "fst (check_row_count api n w3) = count_matches api w n"
    by (simp add: mid(1)) (simp add: w3_def)
  define w4 where "w4 = snd (check_row_count api n w3)"
  have v: "validate api w =
      say (if list_all snd (checks_list raw_df df (count_matches api w n))
           then All_checks_passed else Some_checks_failed)
        (fold (\<lambda>(name, ok). say (Summary_line name ok))
           (checks_list raw_df df (count_matches api w n))
           (say Summary_header
             (say (Check_line 6 (contract_codes_ok df))
               (say (Check_line 5 (charge_segments_ok df))
                 (say (Check_line 4 (tenure_segments_ok df)) w4)))))"
    unfolding validate_def assms option.case Let_def case_prod_unfold
    unfolding w3_def [symmetric] n_def [symmetric]
    unfolding ok w4_def [symmetric]
    by (rule refl)
  have w3_fields: "trace w3 = trace w @
       [Read_csv Raw, Read_csv Staged, Print Starting_validation,
        Print (Check_line 1 (no_missing_numeric df)),
        Print (Check_line 2 (unique_match raw_df df))]"
    "raw_csv w3 = raw_csv w" "staged_csv w3 = staged_csv w" "remote w3 = remote w"
    "get_supabase_client w3 = get_supabase_client w"
    by (simp_all add: w3_def)
  show ?thesis
  proof (rule that [of mid])
    show "trace (validate api w) =
       trace w @
       [Read_csv Raw, Read_csv Staged, Print Starting_validation,
        Print (Check_line 1 (no_missing_numeric df)),
        Print (Check_line 2 (unique_match raw_df df))] @ mid @
       [Print (Check_line 4 (tenure_segments_ok df)),
        Print (Check_line 5 (charge_segments_ok df)),
        Print (Check_line 6 (contract_codes_ok df)), Print Summary_header] @
       map (\<lambda>(name, ok). Print (Summary_line name ok))
         (checks_list raw_df df (count_matches api w (length (records df)))) @
       [Print (if list_all snd (checks_list raw_df df (count_matches api w (length (records df))))
               then All_checks_passed else Some_checks_failed)]"
      unfolding v n_def [symmetric]
      by (simp add: checks_list_def w4_def mid(2) w3_fields(1))
    show "summary mid = []" by (rule mid(3))
    show "filter is_mutation mid = []" by (rule mid(4))
    show "raw_csv (validate api w) = raw_csv w"
      unfolding v by (simp add: checks_list_def w4_def mid(5) w3_fields)
    show "staged_csv (validate api w) = staged_csv w"
      unfolding v by (simp add: checks_list_def w4_def mid(6) w3_fields)
    have rem: "remote (validate api w) = remote w4"
      unfolding v by (simp add: checks_list_def)
    show "filter is_remote_call mid = [] \<and> remote (validate api w) = remote w \<and>
       get_supabase_client w = Inl ValueError \<or>
     filter is_remote_call mid = [Select_count_call] \<and>
       remote (validate api w) = snd (api_select_count api (remote w)) \<and>
       get_supabase_client w \<noteq> Inl ValueError"
      using mid(7) unfolding rem w4_def w3_fields by simp
  qed
qed


lemma summary_lines:
  "summary (map (\<lambda>(name, ok). Print (Summary_line name ok)) cl) = cl"
  by (induction cl) auto

lemma validate_summary:
  assumes "raw_csv w = Some raw_df" "staged_csv w = Some df"
  shows "summary (trace (validate api w)) =
    summary (trace w) @ checks_list raw_df df (count_matches api w (length (records df)))"
proof -
  from assms obtain mid where
    "trace (validate api w) =
       trace w @
       [Read_csv Raw, Read_csv Staged, Print Starting_validation,
        Print (Check_line 1 (no_missing_numeric df)),
        Print (Check_line 2 (unique_match raw_df df))] @ mid @
       [Print (Check_line 4 (tenure_segments_ok df)),
        Print (Check_line 5 (charge_segments_ok df)),
        Print (Check_line 6 (contract_codes_ok df)), Print Summary_header] @
       map (\<lambda>(name, ok). Print (Summary_line name ok))
         (checks_list raw_df df (count_matches api w (length (records df)))) @
       [Print (if list_all snd (checks_list raw_df df (count_matches api w (length (records df))))
               then All_checks_passed else Some_checks_failed)]"
    "summary mid = []"
    by (rule validate_run [of w raw_df df api])
  then show ?thesis
    by (simp add: summary_append summary_lines)
qed

text \<open>
  What the third check does for each answer of the store. With both files there, the run
  reports the six checks, in order, and ends with the summary line. For a response that
  carries a count, the third check is true exactly when that count is the number of
  staged rows. When the count could not be obtained, because the query raised or the
  settings are missing, the third check is false, and the checks 4 to 6 and the summary
  are the same functions of the files as otherwise. For a response without a count, the
  size of its \<open>data\<close> is compared instead.
\<close>

lemma remote_count_check:
  assumes "raw_csv w = Some raw_df" "staged_csv w = Some df"
  shows "\<exists>new. trace (validate api w) = trace w @ new \<and>
     summary new =
       checks_list raw_df df
         (case get_supabase_client w of
            Inl e \<Rightarrow> False
          | Inr c \<Rightarrow>
              (case fst (api_select_count api (remote w)) of
                 Count_raised \<Rightarrow> False
               | Count_response (Some n) k \<Rightarrow> n = length (records df)
               | Count_response None k \<Rightarrow> k = length (records df))) \<and>
     last new = Print (if list_all snd (summary new) then All_checks_passed
                       else Some_checks_failed)"
proof -
  from assms obtain mid where run:
    "trace (validate api w) =
       trace w @
       [Read_csv Raw, Read_csv Staged, Print Starting_validation,
        Print (Check_line 1 (no_missing_numeric df)),
        Print (Check_line 2 (unique_match raw_df df))] @ mid @
       [Print (Check_line 4 (tenure_segments_ok df)),
        Print (Check_line 5 (charge_segments_ok df)),
        Print (Check_line 6 (contract_codes_ok df)), Print Summary_header] @
       map (\<lambda>(name, ok). Print (Summary_line name ok))
         (checks_list raw_df df (count_matches api w (length (records df)))) @
       [Print (if list_all snd (checks_list raw_df df (count_matches api w (length (records df))))
               then All_checks_passed else Some_checks_failed)]"
    "summary mid = []"
    by (rule validate_run [of w raw_df df api])
  let ?cl = "checks_list raw_df df (count_matches api w (length (records df)))"
  let ?new = "[Read_csv Raw, Read_csv Staged, Print Starting_validation,
        Print (Check_line 1 (no_missing_numeric df)),
        Print (Check_line 2 (unique_match raw_df df))] @ mid @
       [Print (Check_line 4 (tenure_segments_ok df)),
        Print (Check_line 5 (charge_segments_ok df)),
        Print (Check_line 6 (contract_codes_ok df)), Print Summary_header] @
       map (\<lambda>(name, ok). Print (Summary_line name ok)) ?cl @
       [Print (if list_all snd ?cl then All_checks_passed else Some_checks_failed)]"
  have sm: "summary ?new = ?cl"
    by (simp add: summary_append summary_lines run(2))
  have "trace (validate api w) = trace w @ ?new"
    using run(1) by simp
  moreover have "summary ?new =
       checks_list raw_df df
         (case get_supabase_client w of
            Inl e \<Rightarrow> False
          | Inr c \<Rightarrow>
              (case fst (api_select_count api (remote w)) of
                 Count_raised \<Rightarrow> False
               | Count_response (Some n) k \<Rightarrow> n = length (records df)
               | Count_response None k \<Rightarrow> k = length (records df)))"
    unfolding sm by (simp add: count_matches_def)
  moreover have "last ?new = Print (if list_all snd (summary ?new) then All_checks_passed
                       else Some_checks_failed)"
    unfolding sm by simp
  ultimately show ?thesis by blast
qed

text \<open>
  C10. A validation run leaves the raw file and the staged file as they were. It writes
  no file and issues no insert and no table creation: the only request it may make to the
  store is one count query, so the store's state after the run is its state before, or
  what the store made of that one query; with a store whose count query changes nothing,
  the store is unchanged.
\<close>

theorem validate_reads_only:
  "raw_csv (validate api w) = raw_csv w \<and> staged_csv (validate api w) = staged_csv w \<and>
   (\<exists>new. trace (validate api w) = trace w @ new \<and> filter is_mutation new = [] \<and>
      (filter is_remote_call new = [] \<and> remote (validate api w) = remote w \<or>
       filter is_remote_call new = [Select_count_call] \<and>
       remote (validate api w) = snd (api_select_count api (remote w)))) \<and>
   (snd (api_select_count api (remote w)) = remote w \<longrightarrow> remote (validate api w) = remote w)"
proof (cases "raw_csv w")
  case None
  then show ?thesis by (simp add: validate_def)
next
  case raw: (Some raw_df)
  show ?thesis
  proof (cases "staged_csv w")
    case None
    with raw show ?thesis by (simp add: validate_def)
  next
    case staged: (Some df)
    from raw staged obtain mid where run:
      "trace (validate api w) =
         trace w @
         [Read_csv Raw, Read_csv Staged, Print Starting_validation,
          Print (Check_line 1 (no_missing_numeric df)),
          Print (Check_line 2 (unique_match raw_df df))] @ mid @
         [Print (Check_line 4 (tenure_segments_ok df)),
          Print (Check_line 5 (charge_segments_ok df)),
          Print (Check_line 6 (contract_codes_ok df)), Print Summary_header] @
         map (\<lambda>(name, ok). Print (Summary_line name ok))
           (checks_list raw_df df (count_matches api w (length (records df)))) @
         [Print (if list_all snd (checks_list raw_df df (count_matches api w (length (records df))))
                 then All_checks_passed else Some_checks_failed)]"
      "summary mid = []" "filter is_mutation mid = []"
      "raw_csv (validate api w) = raw_csv w" "staged_csv (validate api w) = staged_csv w"
      "filter is_remote_call mid = [] \<and> remote (validate api w) = remote w \<and>
         get_supabase_client w = Inl ValueError \<or>
       filter is_remote_call mid = [Select_count_call] \<and>
         remote (validate api w) = snd (api_select_count api (remote w)) \<and>
         get_supabase_client w \<noteq> Inl ValueError"
      by (rule validate_run [of w raw_df df api])
    let ?new = "[Read_csv Raw, Read_csv Staged, Print Starting_validation,
          Print (Check_line 1 (no_missing_numeric df)),
          Print (Check_line 2 (unique_match raw_df df))] @ mid @
         [Print (Check_line 4 (tenure_segments_ok df)),
          Print (Check_line 5 (charge_segments_ok df)),
          Print (Check_line 6 (contract_codes_ok df)), Print Summary_header] @
         map (\<lambda>(name, ok). Print (Summary_line name ok))
           (checks_list raw_df df (count_matches api w (length (records df)))) @
         [Print (if list_all snd (checks_list raw_df df (count_matches api w (length (records df))))
                 then All_checks_passed else Some_checks_failed)]"
    have mut: "filter is_mutation ?new = []"
      by (simp add: run(3) checks_list_def)
    have rc: "filter is_remote_call ?new = filter is_remote_call mid"
      by (simp add: checks_list_def)
    have tr: "trace (validate api w) = trace w @ ?new"
      using run(1) by simp
    from run(6) have rem: "filter is_remote_call ?new = [] \<and> remote (validate api w) = remote w \<or>
       filter is_remote_call ?new = [Select_count_call] \<and>
       remote (validate api w) = snd (api_select_count api (remote w))"
      unfolding rc by blast
    from rem have ro: "snd (api_select_count api (remote w)) = remote w \<longrightarrow>
        remote (validate api w) = remote w"
      by auto
    show ?thesis
      using run(4,5) tr mut rem ro by blast
  qed
qed


lemma staged_small_series:
  "series ''tenure'' staged_small = [Num 5, Num 20, Num 50, Num 70]"
  "series ''MonthlyCharges'' staged_small = [Num 20, Num 50, Num 80, Num 90]"
  "series ''TotalCharges'' staged_small = [Num 100, Num 1000, Num 4000, Num 6300]"
  "series ''tenure_group'' staged_small =
     [Str ''New'', Str ''Regular'', Str ''Loyal'', Str ''Champion'']"
  "series ''monthly_charge_segment'' staged_small =
     [Str ''Low'', Str ''Medium'', Str ''High'', Str ''High'']"
  "series ''contract_type_code'' staged_small = [Num 0, Num 1, Num 2, Num 2]"
  "columns staged_small = required_cols" "length (records staged_small) = 4"
  by (simp_all add: series_def staged_small_def staged_row_def row_def)

lemma raw_example_customers:
  "series ''customerID'' raw_example = [Str ''A'', Str ''B'', Str ''C'', Str ''D'']"
  by (simp add: series_def raw_example_def raw_row_def row_def)

lemma staged_small_checks:
  "checks_list raw_example staged_small ok =
     [(''No missing values in tenure, MonthlyCharges, TotalCharges'', True),
      (''Unique count of rows matches original dataset'', True),
      (''Row count matches Supabase table'', ok),
      (''All tenure_group segments exist'', True),
      (''All monthly_charge_segment segments exist'', True),
      (''Contract codes are only {0,1,2}'', True)]"
proof -
  have "no_missing_numeric staged_small"
    by (simp add: no_missing_numeric_def staged_small_series numeric_cols_def required_cols_def)
  moreover have "unique_match raw_example staged_small"
    by (simp add: unique_match_def raw_unique_def nunique_def staged_small_series
        raw_example_customers raw_example_shape raw_columns_def)
  moreover have "tenure_segments_ok staged_small"
    by (simp add: tenure_segments_ok_def segments_present_def staged_small_series
        required_cols_def)
  moreover have "charge_segments_ok staged_small"
    by (simp add: charge_segments_ok_def segments_present_def staged_small_series
        required_cols_def)
  moreover have "contract_codes_ok staged_small"
    by (simp add: contract_codes_ok_def actual_codes_def staged_small_series required_cols_def)
  ultimately show ?thesis
    by (simp add: checks_list_def)
qed

lemma loaded_world_fields:
  "raw_csv loaded_world = Some raw_example" "staged_csv loaded_world = Some staged_small"
  "trace loaded_world = []"
  "get_supabase_client loaded_world = Inr (Client ''https://example.supabase.co'' ''secret'')"
  "length (table_rows (remote loaded_world)) = 4"
  by (simp_all add: loaded_world_def example_world_def get_supabase_client_def falsy_def
      to_dict_records_def staged_small_series)

lemma unconfigured_world_fields:
  "raw_csv unconfigured_world = Some raw_example"
  "staged_csv unconfigured_world = Some staged_small"
  "trace unconfigured_world = []" "falsy (SUPABASE_URL unconfigured_world)"
  "get_supabase_client unconfigured_world = Inl ValueError"
  "remote unconfigured_world = \<lparr>table_rows = [], calls = 0\<rparr>"
  by (simp_all add: unconfigured_world_def example_world_def get_supabase_client_def falsy_def)

lemma remote_count_check_example:
  "summary (trace (validate (scripted_store []) loaded_world)) =
     [(''No missing values in tenure, MonthlyCharges, TotalCharges'', True),
      (''Unique count of rows matches original dataset'', True),
      (''Row count matches Supabase table'', True),
      (''All tenure_group segments exist'', True),
      (''All monthly_charge_segment segments exist'', True),
      (''Contract codes are only {0,1,2}'', True)] \<and>
   last (trace (validate (scripted_store []) loaded_world)) = Print All_checks_passed \<and>
   summary (trace (validate failing_count_store loaded_world)) =
     [(''No missing values in tenure, MonthlyCharges, TotalCharges'', True),
      (''Unique count of rows matches original dataset'', True),
      (''Row count matches Supabase table'', False),
      (''All tenure_group segments exist'', True),
      (''All monthly_charge_segment segments exist'', True),
      (''Contract codes are only {0,1,2}'', True)] \<and>
   last (trace (validate failing_count_store loaded_world)) = Print Some_checks_failed"
  using remote_count_check [OF loaded_world_fields(1,2), of "scripted_store []"]
    remote_count_check [OF loaded_world_fields(1,2), of failing_count_store]
  by (auto simp: loaded_world_fields staged_small_checks staged_small_series scripted_store_def
      failing_count_store_def)


theorem validate_reads_only_witness:
  "raw_csv (validate (scripted_store []) loaded_world) = Some raw_example \<and>
   staged_csv (validate (scripted_store []) loaded_world) = Some staged_small \<and>
   table_rows (remote (validate (scripted_store []) loaded_world)) =
     to_dict_records staged_small"
  using validate_reads_only [of "scripted_store []" loaded_world]
  by (simp add: loaded_world_fields) (simp add: scripted_store_def loaded_world_def)

lemma create_table_no_client:
  assumes "get_supabase_client w = Inl e"
  shows "create_table_if_not_exists api w = say Trying_to_continue (say (Error_creating_table e) w)"
  using assms by (simp add: create_table_if_not_exists_def)

text \<open>
  C7, as the code has it. With the URL or the key absent (unset or empty),
  \<open>get_supabase_client\<close> raises before any request reaches the store. The error is
  not fatal to the entry points: each catches and reports it. The table step issues no
  request and says it continues; the loader reads no file and issues no insert; the
  validator issues no count query, records the third check as failed, and still
  evaluates and reports all six checks.
\<close>

theorem missing_settings:
  assumes "falsy (SUPABASE_URL w) \<or> falsy (SUPABASE_KEY w)"
  shows "get_supabase_client w = Inl ValueError \<and>
    create_table_if_not_exists api w =
      say Trying_to_continue (say (Error_creating_table ValueError) w) \<and>
    (\<exists>new. trace (load_to_supabase api w) = trace w @ new \<and>
       filter is_remote_call new = [] \<and> filter is_read new = [] \<and>
       remote (load_to_supabase api w) = remote w) \<and>
    (\<exists>new. trace (validate api w) = trace w @ new \<and>
       filter is_remote_call new = [] \<and> remote (validate api w) = remote w \<and>
       summary new =
         (case (raw_csv w, staged_csv w) of
            (Some raw_df, Some df) \<Rightarrow> checks_list raw_df df False
          | _ \<Rightarrow> []))"
proof (intro conjI)
  show cl: "get_supabase_client w = Inl ValueError"
    using assms by (auto simp: get_supabase_client_def)
  show "create_table_if_not_exists api w =
      say Trying_to_continue (say (Error_creating_table ValueError) w)"
    by (rule create_table_no_client [OF cl])
  show "\<exists>new. trace (load_to_supabase api w) = trace w @ new \<and>
       filter is_remote_call new = [] \<and> filter is_read new = [] \<and>
       remote (load_to_supabase api w) = remote w"
  proof (cases "staged_csv w")
    case None
    then show ?thesis by (simp add: load_to_supabase_no_file)
  next
    case (Some df)
    then show ?thesis by (simp add: load_to_supabase_no_client [OF _ cl])
  qed
  show "\<exists>new. trace (validate api w) = trace w @ new \<and>
       filter is_remote_call new = [] \<and> remote (validate api w) = remote w \<and>
       summary new =
         (case (raw_csv w, staged_csv w) of
            (Some raw_df, Some df) \<Rightarrow> checks_list raw_df df False
          | _ \<Rightarrow> [])"
  proof (cases "raw_csv w")
    case None
    then show ?thesis by (simp add: validate_def)
  next
    case raw: (Some raw_df)
    show ?thesis
    proof (cases "staged_csv w")
      case None
      with raw show ?thesis by (simp add: validate_def)
    next
      case staged: (Some df)
      from raw staged obtain mid where run:
        "trace (validate api w) =
           trace w @
           [Read_csv Raw, Read_csv Staged, Print Starting_validation,
            Print (Check_line 1 (no_missing_numeric df)),
            Print (Check_line 2 (unique_match raw_df df))] @ mid @
           [Print (Check_line 4 (tenure_segments_ok df)),
            Print (Check_line 5 (charge_segments_ok df)),
            Print (Check_line 6 (contract_codes_ok df)), Print Summary_header] @
           map (\<lambda>(name, ok). Print (Summary_line name ok))
             (checks_list raw_df df (count_matches api w (length (records df)))) @
           [Print (if list_all snd (checks_list raw_df df (count_matches api w (length (records df))))
                   then All_checks_passed else Some_checks_failed)]"
        "summary mid = []" "filter is_mutation mid = []"
        "raw_csv (validate api w) = raw_csv w" "staged_csv (validate api w) = staged_csv w"
        "filter is_remote_call mid = [] \<and> remote (validate api w) = remote w \<and>
           get_supabase_client w = Inl ValueError \<or>
         filter is_remote_call mid = [Select_count_call] \<and>
           remote (validate api w) = snd (api_select_count api (remote w)) \<and>
           get_supabase_client w \<noteq> Inl ValueError"
        by (rule validate_run [of w raw_df df api])
      have no: "count_matches api w (length (records df)) = False"
        by (simp add: count_matches_def cl)
      from run(6) cl have quiet: "filter is_remote_call mid = []"
        "remote (validate api w) = remote w"
        by auto
      let ?new = "[Read_csv Raw, Read_csv Staged, Print Starting_validation,
            Print (Check_line 1 (no_missing_numeric df)),
            Print (Check_line 2 (unique_match raw_df df))] @ mid @
           [Print (Check_line 4 (tenure_segments_ok df)),
            Print (Check_line 5 (charge_segments_ok df)),
            Print (Check_line 6 (contract_codes_ok df)), Print Summary_header] @
           map (\<lambda>(name, ok). Print (Summary_line name ok)) (checks_list raw_df df False) @
           [Print (if list_all snd (checks_list raw_df df False)
                   then All_checks_passed else Some_checks_failed)]"
      have "trace (validate api w) = trace w @ ?new"
        using run(1) unfolding no by simp
      moreover have "filter is_remote_call ?new = []"
        by (simp add: quiet(1) checks_list_def)
      moreover have "summary ?new = checks_list raw_df df False"
        by (simp add: summary_append summary_lines run(2))
      ultimately show ?thesis
        using quiet(2) raw staged by (intro exI [of _ ?new]) simp
    qed
  qed
qed

text \<open>
  C7 as the specification states it does not hold: without \<open>SUPABASE_URL\<close> the
  validator still runs its checks and reports them, five of them passed.
\<close>

theorem missing_settings_counterexample:
  "falsy (SUPABASE_URL unconfigured_world) \<and>
   summary (trace (validate (scripted_store []) unconfigured_world)) =
     [(''No missing values in tenure, MonthlyCharges, TotalCharges'', True),
      (''Unique count of rows matches original dataset'', True),
      (''Row count matches Supabase table'', False),
      (''All tenure_group segments exist'', True),
      (''All monthly_charge_segment segments exist'', True),
      (''Contract codes are only {0,1,2}'', True)] \<and>
   last (trace (validate (scripted_store []) unconfigured_world)) = Print Some_checks_failed"
proof -
  have s: "summary (trace (validate (scripted_store []) unconfigured_world)) =
      checks_list raw_example staged_small False"
    using validate_summary [OF unconfigured_world_fields(1,2), of "scripted_store []"]
    by (simp add: unconfigured_world_fields count_matches_def)
  obtain mid where
    "trace (validate (scripted_store []) unconfigured_world) =
       trace unconfigured_world @
       [Read_csv Raw, Read_csv Staged, Print Starting_validation,
        Print (Check_line 1 (no_missing_numeric staged_small)),
        Print (Check_line 2 (unique_match raw_example staged_small))] @ mid @
       [Print (Check_line 4 (tenure_segments_ok staged_small)),
        Print (Check_line 5 (charge_segments_ok staged_small)),
        Print (Check_line 6 (contract_codes_ok staged_small)), Print Summary_header] @
       map (\<lambda>(name, ok). Print (Summary_line name ok))
         (checks_list raw_example staged_small
           (count_matches (scripted_store []) unconfigured_world (length (records staged_small)))) @
       [Print (if list_all snd (checks_list raw_example staged_small
             (count_matches (scripted_store []) unconfigured_world (length (records staged_small))))
               then All_checks_passed else Some_checks_failed)]"
    by (rule validate_run [OF unconfigured_world_fields(1,2), of "scripted_store []"])
  then have l: "last (trace (validate (scripted_store []) unconfigured_world)) =
      Print Some_checks_failed"
    by (simp add: count_matches_def unconfigured_world_fields staged_small_checks)
  show ?thesis
    using s l by (simp add: unconfigured_world_fields staged_small_checks)
qed

theorem missing_settings_witness:
  "get_supabase_client unconfigured_world = Inl ValueError \<and>
   trace (create_table_if_not_exists (scripted_store []) unconfigured_world) =
     [Print (Error_creating_table ValueError), Print Trying_to_continue] \<and>
   trace (load_to_supabase (scripted_store []) unconfigured_world) =
     [Print Looking_for_data_file, Print (Error_loading_data ValueError)] \<and>
   remote (validate (scripted_store []) unconfigured_world) = \<lparr>table_rows = [], calls = 0\<rparr>"
  using missing_settings [of unconfigured_world "scripted_store []"]
    load_to_supabase_no_client [OF unconfigured_world_fields(2,5), of "scripted_store []"]
  by (simp add: unconfigured_world_fields)

lemma one_row_world_fields:
  "raw_csv one_row_world = Some raw_example"
  "staged_csv one_row_world = Some (staged_small\<lparr>records := take 1 (records staged_small)\<rparr>)"
  "trace one_row_world = []"
  "get_supabase_client one_row_world = Inr (Client ''https://example.supabase.co'' ''secret'')"
  "length (table_rows (remote one_row_world)) = 4"
  by (simp_all add: one_row_world_def loaded_world_def example_world_def
      get_supabase_client_def falsy_def to_dict_records_def staged_small_series)

text \<open>
  C6. \<open>get_supabase_row_count\<close> is documented to return the exact row count, and the
  third check is to pass exactly when the table's row count is the number of staged
  rows. For a response without a count it returns the size of the response's \<open>data\<close>,
  which \<open>limit(1)\<close> holds to one row at most, and the check goes wrong both ways: with
  four rows in the table and four staged rows the third check fails (the five others
  pass), and with four rows in the table and one staged row it passes.
\<close>

theorem remote_count_fallback:
  "length (table_rows (remote loaded_world)) = 4 \<and>
   map_option (\<lambda>df. length (records df)) (staged_csv loaded_world) = Some 4 \<and>
   summary (trace (validate uncounted_store loaded_world)) =
     [(''No missing values in tenure, MonthlyCharges, TotalCharges'', True),
      (''Unique count of rows matches original dataset'', True),
      (''Row count matches Supabase table'', False),
      (''All tenure_group segments exist'', True),
      (''All monthly_charge_segment segments exist'', True),
      (''Contract codes are only {0,1,2}'', True)] \<and>
   length (table_rows (remote one_row_world)) = 4 \<and>
   map_option (\<lambda>df. length (records df)) (staged_csv one_row_world) = Some 1 \<and>
   summary (trace (validate uncounted_store one_row_world)) ! 2 =
     (''Row count matches Supabase table'', True)"
proof -
  have four: "summary (trace (validate uncounted_store loaded_world)) =
      checks_list raw_example staged_small False"
    using validate_summary [OF loaded_world_fields(1,2), of uncounted_store]
    by (simp add: loaded_world_fields count_matches_def uncounted_store_def scripted_store_def
        staged_small_series)
  have one: "summary (trace (validate uncounted_store one_row_world)) =
      checks_list raw_example (staged_small\<lparr>records := take 1 (records staged_small)\<rparr>) True"
    using validate_summary [OF one_row_world_fields(1,2), of uncounted_store]
    by (simp add: one_row_world_fields count_matches_def uncounted_store_def scripted_store_def
        staged_small_series)
  show ?thesis
    unfolding four one
    by (simp add: staged_small_checks loaded_world_fields one_row_world_fields
        staged_small_series) (simp add: checks_list_def)
qed

end
